theory Spec2Isabelle
  imports Main "HOL-Library.Word" "HOL-Library.Multiset" "HOL-Library.List_Lexorder"
    "HOL-Library.Char_ord"
begin

unbundle bit_operations_syntax

section \<open>Shared vocabulary\<close>

text \<open>
  Fatebound Breach derives every turn's hand from one 256-bit seed, twice: in the
  TypeScript client (\<^verbatim>\<open>vrfMapper.ts\<close>, \<^verbatim>\<open>turnResolver.ts\<close>) and in the Solidity
  library \<^verbatim>\<open>TurnVerifier\<close>. Both sides are embedded here. A definition without a
  suffix is the TypeScript function of that name; the suffix \<^verbatim>\<open>_sol\<close> marks the
  Solidity function of the same name.

  JavaScript numbers are modelled as \<open>int\<close> (the game only ever stores integers in
  them); Solidity's \<^verbatim>\<open>uint8\<close>, \<^verbatim>\<open>uint16\<close> and \<^verbatim>\<open>uint32\<close> are words of that width,
  and the checked arithmetic of Solidity 0.8 is written out where it can fail.
\<close>

type_synonym byte = "8 word"

text \<open>\<^verbatim>\<open>PacketType\<close>: a string union in TypeScript, an enum in Solidity, with the same
  five members.\<close>

datatype PacketType = MISS | ATTACK | DEFEND | CRIT | HEAL

datatype Rarity = COMMON | RARE | LEGENDARY

datatype AnomalyType = STABLE | ION_STORM | DATA_LEAK | OVERCLOCK

text \<open>Every \<^verbatim>\<open>throw new Error(...)\<close> of the client is a constructor, carrying what the
  message interpolates.\<close>

datatype error =
    InvalidByteValue int
  | InvalidTurnNumber int
  | InvalidHexString string
  | InvalidPacketId string
  | PacketAlreadyAssigned string
  | InvalidTarget string
  | NotAllPacketsAssigned nat nat
  | PacketNotFound string
  | TargetNotFound string
  | TypeError

text \<open>A Solidity call either returns or reverts: with the message of a failed
  \<^verbatim>\<open>require\<close>, or with a panic (arithmetic overflow, array index out of bounds).\<close>

datatype revert = Require string | PanicOverflow | PanicIndex

section \<open>vrfMapper.ts: bytes to packets\<close>

text \<open>\<^verbatim>\<open>PACKET_THRESHOLDS\<close> and \<^verbatim>\<open>PACKET_VALUES\<close> of \<^verbatim>\<open>gameState.ts\<close>.\<close>

fun PACKET_THRESHOLDS_min :: "PacketType \<Rightarrow> int" where
  "PACKET_THRESHOLDS_min MISS = 0"
| "PACKET_THRESHOLDS_min ATTACK = 20"
| "PACKET_THRESHOLDS_min DEFEND = 151"
| "PACKET_THRESHOLDS_min CRIT = 201"
| "PACKET_THRESHOLDS_min HEAL = 241"

fun PACKET_THRESHOLDS_max :: "PacketType \<Rightarrow> int" where
  "PACKET_THRESHOLDS_max MISS = 19"
| "PACKET_THRESHOLDS_max ATTACK = 150"
| "PACKET_THRESHOLDS_max DEFEND = 200"
| "PACKET_THRESHOLDS_max CRIT = 240"
| "PACKET_THRESHOLDS_max HEAL = 255"

fun PACKET_VALUES :: "PacketType \<Rightarrow> int" where
  "PACKET_VALUES MISS = 0"
| "PACKET_VALUES ATTACK = 5"
| "PACKET_VALUES DEFEND = 5"
| "PACKET_VALUES CRIT = 15"
| "PACKET_VALUES HEAL = 10"

definition mapByteToPacketType :: "int \<Rightarrow> error + PacketType" where
  "mapByteToPacketType b =
     (if b < 0 \<or> b > 255 then Inl (InvalidByteValue b)
      else if b \<le> PACKET_THRESHOLDS_max MISS then Inr MISS
      else if b \<le> PACKET_THRESHOLDS_max ATTACK then Inr ATTACK
      else if b \<le> PACKET_THRESHOLDS_max DEFEND then Inr DEFEND
      else if b \<le> PACKET_THRESHOLDS_max CRIT then Inr CRIT
      else Inr HEAL)"

definition calculatePacketCount :: "int \<Rightarrow> error + int" where
  "calculatePacketCount turn =
     (if turn < 1 then Inl (InvalidTurnNumber turn) else Inr (5 + turn mod 3))"

section \<open>TurnVerifier.sol: bytes to packets\<close>

definition THRESHOLD_MISS :: byte where "THRESHOLD_MISS = 19"
definition THRESHOLD_ATTACK :: byte where "THRESHOLD_ATTACK = 150"
definition THRESHOLD_DEFEND :: byte where "THRESHOLD_DEFEND = 200"
definition THRESHOLD_CRIT :: byte where "THRESHOLD_CRIT = 240"

definition mapByteToPacketType_sol :: "byte \<Rightarrow> PacketType" where
  "mapByteToPacketType_sol byteValue =
     (if byteValue \<le> THRESHOLD_MISS then MISS
      else if byteValue \<le> THRESHOLD_ATTACK then ATTACK
      else if byteValue \<le> THRESHOLD_DEFEND then DEFEND
      else if byteValue \<le> THRESHOLD_CRIT then CRIT
      else HEAL)"

text \<open>\<^verbatim>\<open>return 5 + (turn % 3)\<close> on \<^verbatim>\<open>uint8\<close>: the sum is at most 7, so the checked
  addition never overflows and the function has no failing path.\<close>

definition calculatePacketCount_sol :: "byte \<Rightarrow> byte" where
  "calculatePacketCount_sol turn = 5 + (turn mod 3)"

section \<open>gameState.ts: the client's data model\<close>

datatype EnemyIntent = Intent_ATTACK | Intent_DEFEND | Intent_BUFF | Intent_IDLE

datatype GameStatus = INIT | WAITING_FOR_VRF | PLANNING | EXECUTING | RESOLVED

datatype TurnResult = VICTORY | DEFEAT | CONTINUE

record Packet =
  packet_id :: string
  hexValue :: string
  byteValue :: int
  packet_type :: PacketType
  rarity :: Rarity
  packet_value :: int

record Position =
  pos_x :: int
  pos_y :: int

record Grid =
  grid_width :: int
  grid_height :: int

record Player =
  player_hp :: int
  player_maxHp :: int
  player_shield :: int
  player_position :: Position

record Enemy =
  enemy_id :: string
  enemy_name :: string
  enemy_hp :: int
  enemy_maxHp :: int
  enemy_type :: string
  enemy_position :: Position
  intent :: EnemyIntent
  enemy_damage :: int

record Assignment =
  packetId :: string
  targetId :: string

record GameState =
  status :: GameStatus
  levelSeed :: string
  turnCounter :: int
  levelId :: int
  grid :: Grid
  player :: Player
  enemies :: "Enemy list"
  dataStream :: "Packet list"
  assignments :: "Assignment list"
  score :: int
  anomaly :: AnomalyType
  jackpotHit :: bool

section \<open>turnResolver.ts: applying packets\<close>

text \<open>The resolver works on a deep clone of its input and mutates the clone; here each
  function takes the state and returns the updated one.\<close>

definition applyDamageToPlayer :: "GameState \<Rightarrow> int \<Rightarrow> GameState" where
  "applyDamageToPlayer s damage =
     (let remainingDamage = damage;
          p = player s;
          (p1, remainingDamage1) =
            (if player_shield p > 0
             then (let shieldAbsorbed = min (player_shield p) remainingDamage
                   in (p\<lparr>player_shield := player_shield p - shieldAbsorbed\<rparr>,
                       remainingDamage - shieldAbsorbed))
             else (p, remainingDamage));
          p2 = (if remainingDamage1 > 0
                then p1\<lparr>player_hp := max 0 (player_hp p1 - remainingDamage1)\<rparr>
                else p1)
      in s\<lparr>player := p2\<rparr>)"

text \<open>The local \<^verbatim>\<open>effectiveValue\<close> of \<^verbatim>\<open>applyPacketEffect\<close>: the rarity multiplier
  (\<^verbatim>\<open>Math.floor(value * 1.5)\<close> for RARE, doubled for LEGENDARY), then the OVERCLOCK
  bonus on ATTACK packets.\<close>

definition effectiveValue :: "GameState \<Rightarrow> Packet \<Rightarrow> int" where
  "effectiveValue s packet =
     (let v = (if rarity packet = RARE then (packet_value packet * 3) div 2
               else if rarity packet = LEGENDARY then packet_value packet * 2
               else packet_value packet)
      in if anomaly s = OVERCLOCK \<and> packet_type packet = ATTACK then v + 5 else v)"

text \<open>\<^verbatim>\<open>state.enemies.find(...)\<close> returns the first match, and the writes to
  \<^verbatim>\<open>enemy.hp\<close> change that element of the list.\<close>

fun update_first :: "('a \<Rightarrow> bool) \<Rightarrow> ('a \<Rightarrow> 'a) \<Rightarrow> 'a list \<Rightarrow> 'a list" where
  "update_first P f [] = []"
| "update_first P f (e # es) = (if P e then f e # es else e # update_first P f es)"

definition applyPacketEffect :: "GameState \<Rightarrow> Packet \<Rightarrow> string \<Rightarrow> error + GameState" where
  "applyPacketEffect s packet target =
     (if target = ''trash'' then Inr s
      else if target = ''player'' then
        (case packet_type packet of
           HEAL \<Rightarrow> Inr (s\<lparr>player := (player s)\<lparr>player_hp :=
                      min (player_hp (player s) + effectiveValue s packet)
                          (player_maxHp (player s))\<rparr>\<rparr>)
         | DEFEND \<Rightarrow> Inr (s\<lparr>player := (player s)\<lparr>player_shield :=
                      player_shield (player s) + effectiveValue s packet\<rparr>\<rparr>)
         | ATTACK \<Rightarrow> Inr (applyDamageToPlayer s (effectiveValue s packet))
         | CRIT \<Rightarrow> Inr (applyDamageToPlayer s (effectiveValue s packet))
         | MISS \<Rightarrow> Inr s)
      else
        (case find (\<lambda>e. enemy_id e = target) (enemies s) of
           None \<Rightarrow> Inl (TargetNotFound target)
         | Some enemy \<Rightarrow>
             if enemy_type enemy = ''CACHE_GOLD'' then
               (if packet_type packet = CRIT
                then Inr (s\<lparr>enemies := update_first (\<lambda>e. enemy_id e = target)
                                 (\<lambda>e. e\<lparr>enemy_hp := 0\<rparr>) (enemies s)\<rparr>)
                else Inr s)
             else
               (case packet_type packet of
                  ATTACK \<Rightarrow> Inr (s\<lparr>enemies := update_first (\<lambda>e. enemy_id e = target)
                      (\<lambda>e. e\<lparr>enemy_hp := max 0 (enemy_hp e - effectiveValue s packet)\<rparr>)
                      (enemies s)\<rparr>)
                | CRIT \<Rightarrow> Inr (s\<lparr>enemies := update_first (\<lambda>e. enemy_id e = target)
                      (\<lambda>e. e\<lparr>enemy_hp := max 0 (enemy_hp e - effectiveValue s packet)\<rparr>)
                      (enemies s)\<rparr>)
                | MISS \<Rightarrow> Inr s
                | DEFEND \<Rightarrow> Inr s
                | HEAL \<Rightarrow> Inr s)))"

section \<open>TurnVerifier.sol: data model and applying packets\<close>

record Packet_sol =
  byteValue_sol :: byte
  packetType_sol :: PacketType
  value_sol :: byte

record Player_sol =
  player_hp_sol :: "16 word"
  player_maxHp_sol :: "16 word"
  player_shield_sol :: "16 word"

record Enemy_sol =
  enemy_id_sol :: byte
  enemy_hp_sol :: "16 word"
  enemy_maxHp_sol :: "16 word"
  enemy_damage_sol :: byte
  isAttacking :: bool
  isCache :: bool

record Assignment_sol =
  packetIndex :: byte
  targetType :: byte

text \<open>\<^verbatim>\<open>uint16\<close> addition of Solidity 0.8: a panic instead of wrap-around.\<close>

definition checked_add16 :: "16 word \<Rightarrow> 16 word \<Rightarrow> revert + 16 word" where
  "checked_add16 a b = (if unat a + unat b < 65536 then Inr (a + b) else Inl PanicOverflow)"

text \<open>\<^verbatim>\<open>packet.value\<close> is a \<^verbatim>\<open>uint8\<close>, widened to \<^verbatim>\<open>uint16\<close> where it meets hp or
  shield. ATTACK, CRIT and MISS fall through both branches: the player is returned as
  it came.\<close>

definition applyPacketToPlayer_sol :: "Player_sol \<Rightarrow> Packet_sol \<Rightarrow> revert + Player_sol" where
  "applyPacketToPlayer_sol p packet =
     (if packetType_sol packet = HEAL then
        (case checked_add16 (player_hp_sol p) (ucast (value_sol packet)) of
           Inl e \<Rightarrow> Inl e
         | Inr newHp \<Rightarrow>
             Inr (p\<lparr>player_hp_sol :=
                    (if newHp > player_maxHp_sol p then player_maxHp_sol p else newHp)\<rparr>))
      else if packetType_sol packet = DEFEND then
        (case checked_add16 (player_shield_sol p) (ucast (value_sol packet)) of
           Inl e \<Rightarrow> Inl e
         | Inr sh \<Rightarrow> Inr (p\<lparr>player_shield_sol := sh\<rparr>))
      else Inr p)"

text \<open>Every subtraction below sits under the comparison that keeps it from underflowing,
  so the checked arithmetic never panics here.\<close>

definition applyPacketToEnemy_sol :: "Enemy_sol \<Rightarrow> Packet_sol \<Rightarrow> Enemy_sol" where
  "applyPacketToEnemy_sol enemy packet =
     (if isCache enemy then
        (if packetType_sol packet = CRIT then enemy\<lparr>enemy_hp_sol := 0\<rparr> else enemy)
      else if packetType_sol packet = ATTACK \<or> packetType_sol packet = CRIT then
        (if enemy_hp_sol enemy > ucast (value_sol packet)
         then enemy\<lparr>enemy_hp_sol := enemy_hp_sol enemy - ucast (value_sol packet)\<rparr>
         else enemy\<lparr>enemy_hp_sol := 0\<rparr>)
      else enemy)"

definition applyDamageToPlayer_sol :: "Player_sol \<Rightarrow> 16 word \<Rightarrow> Player_sol" where
  "applyDamageToPlayer_sol p damage =
     (let remainingDamage = damage;
          hitHp = (\<lambda>q r. if player_hp_sol q > r
                          then q\<lparr>player_hp_sol := player_hp_sol q - r\<rparr>
                          else q\<lparr>player_hp_sol := 0\<rparr>)
      in if player_shield_sol p > 0 then
           (if player_shield_sol p \<ge> remainingDamage
            then p\<lparr>player_shield_sol := player_shield_sol p - remainingDamage\<rparr>
            else hitHp (p\<lparr>player_shield_sol := 0\<rparr>) (remainingDamage - player_shield_sol p))
         else hitHp p remainingDamage)"

section \<open>Fixtures of turnResolver.test.ts\<close>

text \<open>\<^verbatim>\<open>createTestPacket()\<close> and \<^verbatim>\<open>createTestState()\<close> without overrides.\<close>

definition createTestPacket :: Packet where
  "createTestPacket = \<lparr>packet_id = ''packet-0'', hexValue = ''0x64'', byteValue = 100,
     packet_type = ATTACK, rarity = COMMON, packet_value = 5\<rparr>"

definition createTestState :: GameState where
  "createTestState = \<lparr>status = EXECUTING, levelSeed = ''0x1234'', turnCounter = 1, levelId = 1,
     grid = \<lparr>grid_width = 6, grid_height = 6\<rparr>,
     player = \<lparr>player_hp = 100, player_maxHp = 100, player_shield = 0,
                player_position = \<lparr>pos_x = 0, pos_y = 0\<rparr>\<rparr>,
     enemies = [\<lparr>enemy_id = ''enemy-0'', enemy_name = ''Drone'', enemy_hp = 20,
                  enemy_maxHp = 20, enemy_type = ''basic'',
                  enemy_position = \<lparr>pos_x = 3, pos_y = 3\<rparr>,
                  intent = Intent_ATTACK, enemy_damage = 5\<rparr>],
     dataStream = [createTestPacket], assignments = [], score = 0, anomaly = STABLE,
     jackpotHit = False\<rparr>"

section \<open>turnResolver.ts: resolving a turn\<close>

definition executeEnemyPhase :: "GameState \<Rightarrow> GameState" where
  "executeEnemyPhase s =
     (let livingEnemies = filter (\<lambda>e. enemy_hp e > 0) (enemies s)
      in foldl (\<lambda>st enemy. case intent enemy of
                    Intent_ATTACK \<Rightarrow> applyDamageToPlayer st (enemy_damage enemy)
                  | Intent_DEFEND \<Rightarrow> st
                  | Intent_BUFF \<Rightarrow> st
                  | Intent_IDLE \<Rightarrow> st) s livingEnemies)"

definition removeDeadEnemies :: "GameState \<Rightarrow> GameState" where
  "removeDeadEnemies s = s\<lparr>enemies := filter (\<lambda>e. enemy_hp e > 0) (enemies s)\<rparr>"

definition checkTurnResult :: "GameState \<Rightarrow> TurnResult" where
  "checkTurnResult s =
     (if player_hp (player s) \<le> 0 then DEFEAT
      else if length (enemies s) = 0 \<or> list_all (\<lambda>e. enemy_hp e \<le> 0) (enemies s) then VICTORY
      else CONTINUE)"

text \<open>The loop of \<^verbatim>\<open>validateAssignments\<close>: \<open>ids\<close> is the set \<^verbatim>\<open>packetIds\<close>, \<open>assigned\<close> the
  set \<^verbatim>\<open>assignedPackets\<close> as it grows. The three throws come in the source's order.\<close>

fun validateAssignments_loop ::
  "string set \<Rightarrow> Enemy list \<Rightarrow> string set \<Rightarrow> Assignment list \<Rightarrow> error + string set" where
  "validateAssignments_loop ids es assigned [] = Inr assigned"
| "validateAssignments_loop ids es assigned (a # as) =
     (if packetId a \<notin> ids then Inl (InvalidPacketId (packetId a))
      else if packetId a \<in> assigned then Inl (PacketAlreadyAssigned (packetId a))
      else if \<not> (targetId a = ''player'' \<or> targetId a = ''trash''
                  \<or> list_ex (\<lambda>e. enemy_id e = targetId a) es)
      then Inl (InvalidTarget (targetId a))
      else validateAssignments_loop ids es (insert (packetId a) assigned) as)"

definition validateAssignments :: "GameState \<Rightarrow> Assignment list \<Rightarrow> error + unit" where
  "validateAssignments s as =
     (let packetIds = set (map packet_id (dataStream s))
      in case validateAssignments_loop packetIds (enemies s) {} as of
           Inl e \<Rightarrow> Inl e
         | Inr assignedPackets \<Rightarrow>
             if card assignedPackets \<noteq> card packetIds
             then Inl (NotAllPacketsAssigned (card packetIds) (card assignedPackets))
             else Inr ())"

text \<open>\<^verbatim>\<open>JSON.parse(JSON.stringify(state))\<close>: a fresh copy with the same contents. On
  values the copy is the value itself; as an object it is a new one, see
  \<open>resolveTurn_call\<close> below.\<close>

definition cloneState :: "GameState \<Rightarrow> GameState" where
  "cloneState s = s"

text \<open>Step 3 of \<^verbatim>\<open>resolveTurn\<close>: the loop over the assignments, in the order given.\<close>

fun applyAssignments :: "GameState \<Rightarrow> Assignment list \<Rightarrow> error + GameState" where
  "applyAssignments s [] = Inr s"
| "applyAssignments s (a # as) =
     (case find (\<lambda>p. packet_id p = packetId a) (dataStream s) of
        None \<Rightarrow> Inl (PacketNotFound (packetId a))
      | Some packet \<Rightarrow>
          (case applyPacketEffect s packet (targetId a) of
             Inl e \<Rightarrow> Inl e
           | Inr s' \<Rightarrow> applyAssignments s' as))"

text \<open>Step 4: the score loop over \<^verbatim>\<open>nextState.enemies\<close>, each compared with the enemy of
  the same id in \<^verbatim>\<open>currentState\<close>.\<close>

definition scoreKills :: "GameState \<Rightarrow> GameState \<Rightarrow> GameState" where
  "scoreKills currentState s =
     foldl (\<lambda>st enemy.
         case find (\<lambda>e. enemy_id e = enemy_id enemy) (enemies currentState) of
           None \<Rightarrow> st
         | Some originalEnemy \<Rightarrow>
             if enemy_hp originalEnemy > 0 \<and> enemy_hp enemy \<le> 0
             then (let st1 = st\<lparr>score := score st + 100\<rparr>
                   in if enemy_type enemy = ''CACHE_GOLD''
                      then st1\<lparr>score := score st1 + 1000\<rparr> else st1)
             else st) s (enemies s)"

text \<open>Step 1.1, ``Apply Start-of-Turn Anomalies \& Jackpot'': the pending jackpot bonus
  with its flag reset, then the DATA\_LEAK regeneration.\<close>

definition startOfTurn :: "GameState \<Rightarrow> GameState" where
  "startOfTurn nextState =
     (let nextState1 = (if jackpotHit nextState
                        then nextState\<lparr>score := score nextState + 5000, jackpotHit := False\<rparr>
                        else nextState)
      in if anomaly nextState1 = DATA_LEAK
         then nextState1\<lparr>player := (player nextState1)\<lparr>player_hp :=
                min (player_hp (player nextState1) + 5) (player_maxHp (player nextState1))\<rparr>\<rparr>
         else nextState1)"

text \<open>Steps 1 to 4, up to and including the first \<^verbatim>\<open>removeDeadEnemies\<close>: the clone, the
  start of the turn, validation, the packets, the kill score.\<close>

definition resolveTurn_packets :: "GameState \<Rightarrow> Assignment list \<Rightarrow> error + GameState" where
  "resolveTurn_packets currentState as =
     (let nextState = startOfTurn (cloneState currentState)
      in case validateAssignments nextState as of
           Inl e \<Rightarrow> Inl e
         | Inr _ \<Rightarrow>
             (case applyAssignments nextState as of
                Inl e \<Rightarrow> Inl e
              | Inr nextState3 \<Rightarrow>
                  Inr (removeDeadEnemies (scoreKills currentState nextState3))))"

text \<open>Steps 5 to 8: the enemy phase, which the source calls without looking at the
  result of the packets, the ION\_STORM damage, the clean-up, the turn counter and the
  status with the victory bonuses.\<close>

definition resolveTurn_enemies :: "GameState \<Rightarrow> GameState" where
  "resolveTurn_enemies s =
     (let s5 = executeEnemyPhase s;
          s6 = (if anomaly s5 = ION_STORM
                then (let t = applyDamageToPlayer s5 5;
                          t1 = t\<lparr>enemies := map (\<lambda>e. if enemy_hp e > 0
                                  then e\<lparr>enemy_hp := max 0 (enemy_hp e - 5)\<rparr> else e)
                                  (enemies t)\<rparr>
                      in removeDeadEnemies t1)
                else s5);
          s7 = s6\<lparr>assignments := [], dataStream := []\<rparr>;
          s8 = s7\<lparr>turnCounter := turnCounter s7 + 1\<rparr>;
          result = checkTurnResult s8
      in if result = VICTORY \<or> result = DEFEAT then
           (let s9 = s8\<lparr>status := RESOLVED\<rparr>
            in if result = VICTORY then
                 (let s10 = s9\<lparr>score := score s9 + 500\<rparr>
                  in if player_hp (player s10) = player_maxHp (player s10)
                     then s10\<lparr>score := score s10 + 200\<rparr> else s10)
               else s9)
         else s8\<lparr>status := WAITING_FOR_VRF\<rparr>)"

definition resolveTurn :: "GameState \<Rightarrow> Assignment list \<Rightarrow> error + GameState" where
  "resolveTurn currentState as =
     (case resolveTurn_packets currentState as of
        Inl e \<Rightarrow> Inl e
      | Inr s \<Rightarrow> Inr (resolveTurn_enemies s))"

text \<open>
  The call as the caller sees it. Game states are objects: the store maps references to
  their contents, and references from \<open>next_ref\<close> on are unused. The resolver allocates
  the clone, and every write it makes goes to the clone; the reference it returns is the
  clone's. When it throws, no reference is returned and the clone is garbage.
\<close>

record Store =
  contents :: "nat \<Rightarrow> GameState"
  next_ref :: nat

definition resolveTurn_call :: "Store \<Rightarrow> nat \<Rightarrow> Assignment list \<Rightarrow> Store \<times> (error + nat)" where
  "resolveTurn_call st currentState as =
     (let nextState = next_ref st;
          st1 = st\<lparr>contents := (contents st)(nextState := cloneState (contents st currentState)),
                   next_ref := next_ref st + 1\<rparr>
      in case resolveTurn (contents st currentState) as of
           Inl e \<Rightarrow> (st1, Inl e)
         | Inr s \<Rightarrow> (st1\<lparr>contents := (contents st1)(nextState := s)\<rparr>, Inr nextState))"

text \<open>Adding \<open>k\<close> to the score, to compare two runs of the resolver.\<close>

definition bump :: "int \<Rightarrow> GameState \<Rightarrow> GameState" where
  "bump k s = s\<lparr>score := score s + k\<rparr>"

section \<open>Keccak-256\<close>

text \<open>
  Both sides hash with Keccak-256: \<^verbatim>\<open>keccak256\<close> of the viem library in the client, the
  EVM builtin in the contract. It is not code of the repository; it is written out here,
  on bytes as integers, so that seeds can be computed. A lane is 64 bits, least
  significant first; the state is 25 lanes, lane \<open>x + 5y\<close> at index \<open>x + 5y\<close>; the rate is 136
  bytes and the padding is Keccak's \<open>0x01 .. 0x80\<close>.
\<close>

type_synonym lane = "bool list"

fun xor_lane :: "lane \<Rightarrow> lane \<Rightarrow> lane" where
  "xor_lane (a # as) (b # bs) = (a \<noteq> b) # xor_lane as bs"
| "xor_lane _ _ = []"

fun andnot_lane :: "lane \<Rightarrow> lane \<Rightarrow> lane" where
  "andnot_lane (a # as) (b # bs) = (\<not> a \<and> b) # andnot_lane as bs"
| "andnot_lane _ _ = []"

definition rotl_lane :: "nat \<Rightarrow> lane \<Rightarrow> lane" where
  "rotl_lane n w = drop (64 - n) w @ take (64 - n) w"

fun bits_of :: "nat \<Rightarrow> int \<Rightarrow> bool list" where
  "bits_of 0 w = []"
| "bits_of (Suc n) w = (w mod 2 = 1) # bits_of n (w div 2)"

fun int_of_bits :: "bool list \<Rightarrow> int" where
  "int_of_bits [] = 0"
| "int_of_bits (b # bs) = (if b then 1 else 0) + 2 * int_of_bits bs"

fun chunks :: "nat \<Rightarrow> nat \<Rightarrow> 'a list \<Rightarrow> 'a list list" where
  "chunks 0 k bs = []"
| "chunks (Suc n) k bs = take k bs # chunks n k (drop k bs)"

definition RC :: "int list" where
  "RC = [0x0000000000000001, 0x0000000000008082, 0x800000000000808A, 0x8000000080008000,
         0x000000000000808B, 0x0000000080000001, 0x8000000080008081, 0x8000000000008009,
         0x000000000000008A, 0x0000000000000088, 0x0000000080008009, 0x000000008000000A,
         0x000000008000808B, 0x800000000000008B, 0x8000000000008089, 0x8000000000008003,
         0x8000000000008002, 0x8000000000000080, 0x000000000000800A, 0x800000008000000A,
         0x8000000080008081, 0x8000000000008080, 0x0000000080000001, 0x8000000080008008]"

text \<open>For each lane of the output of the steps rho and pi, in order: the index of the lane
  it comes from and the rotation it gets.\<close>

definition PI_RHO :: "(nat \<times> nat) list" where
  "PI_RHO = [(0, 0), (6, 44), (12, 43), (18, 21), (24, 14),
             (3, 28), (9, 20), (10, 3), (16, 45), (22, 61),
             (1, 1), (7, 6), (13, 25), (19, 8), (20, 18),
             (4, 27), (5, 36), (11, 10), (17, 15), (23, 56),
             (2, 62), (8, 55), (14, 39), (15, 41), (21, 2)]"

definition theta :: "lane list \<Rightarrow> lane list" where
  "theta a = (let rows = chunks 5 5 a;
                  c = fold (map2 xor_lane) (tl rows) (hd rows);
                  d = map2 xor_lane (rotate1 (rotate1 (rotate1 (rotate1 c))))
                        (map (rotl_lane 1) (rotate1 c))
              in concat (map (\<lambda>row. map2 xor_lane row d) rows))"

definition rho_pi :: "lane list \<Rightarrow> lane list" where
  "rho_pi a = map (\<lambda>(src, r). rotl_lane r (a ! src)) PI_RHO"

definition chi_row :: "lane list \<Rightarrow> lane list" where
  "chi_row row = map (\<lambda>(p, q, r). xor_lane p (andnot_lane q r))
                   (zip row (zip (rotate1 row) (rotate1 (rotate1 row))))"

definition chi :: "lane list \<Rightarrow> lane list" where
  "chi b = concat (map chi_row (chunks 5 5 b))"

definition iota :: "int \<Rightarrow> lane list \<Rightarrow> lane list" where
  "iota rc a = (case a of [] \<Rightarrow> [] | w # ws \<Rightarrow> xor_lane w (bits_of 64 rc) # ws)"

definition keccak_round :: "lane list \<Rightarrow> int \<Rightarrow> lane list" where
  "keccak_round a rc = iota rc (chi (rho_pi (theta a)))"

definition keccak_f :: "lane list \<Rightarrow> lane list" where
  "keccak_f a = foldl keccak_round a RC"

definition pad101 :: "int list \<Rightarrow> int list" where
  "pad101 m = (let q = 136 - length m mod 136 in
      if q = 1 then m @ [0x81] else m @ [0x01] @ replicate (q - 2) 0 @ [0x80])"

definition absorb :: "lane list \<Rightarrow> int list \<Rightarrow> lane list" where
  "absorb st block =
     keccak_f (map2 xor_lane st
        (chunks 17 64 (concat (map (bits_of 8) block)) @ replicate 8 (replicate 64 False)))"

definition keccak256 :: "int list \<Rightarrow> int list" where
  "keccak256 m = (let p = pad101 m;
                      st = foldl absorb (replicate 25 (replicate 64 False))
                             (chunks (length p div 136) 136 p)
                  in map int_of_bits (chunks 32 8 (concat (take 4 st))))"

section \<open>Hexadecimal and decimal strings\<close>

definition hex_digits_lower :: string where "hex_digits_lower = ''0123456789abcdef''"
definition hex_digits_upper :: string where "hex_digits_upper = ''0123456789ABCDEF''"

definition is_hex_digit :: "char \<Rightarrow> bool" where
  "is_hex_digit c \<longleftrightarrow> c \<in> set hex_digits_lower \<or> c \<in> set hex_digits_upper"

definition hex_digit_value :: "char \<Rightarrow> int" where
  "hex_digit_value c =
     (case map_of (zip hex_digits_lower [0 ..< 16] @ zip hex_digits_upper [0 ..< 16]) c of
        Some v \<Rightarrow> int v | None \<Rightarrow> 0)"

text \<open>Two hexadecimal digits of a byte: \<^verbatim>\<open>toString(16).padStart(2, '0')\<close>.\<close>

definition hex2 :: "string \<Rightarrow> int \<Rightarrow> string" where
  "hex2 digits b = [digits ! nat (b div 16), digits ! nat (b mod 16)]"

fun parse_hex_pairs :: "string \<Rightarrow> int list" where
  "parse_hex_pairs (c # d # cs) = (16 * hex_digit_value c + hex_digit_value d) # parse_hex_pairs cs"
| "parse_hex_pairs _ = []"

text \<open>The decimal digits of a natural number, and a JavaScript integer as a string.\<close>

fun dec_digits :: "nat \<Rightarrow> string" where
  "dec_digits n = (if n < 10 then [char_of (48 + n)]
                   else dec_digits (n div 10) @ [char_of (48 + n mod 10)])"

declare dec_digits.simps [simp del]

definition js_toString :: "int \<Rightarrow> string" where
  "js_toString i = (if i < 0 then CHR ''-'' # dec_digits (nat (- i)) else dec_digits (nat i))"

text \<open>What the client takes from viem: \<^verbatim>\<open>keccak256\<close>, which returns the digest as a
  lower-case hex string with the prefix \<^verbatim>\<open>0x\<close>, and \<^verbatim>\<open>toBytes\<close>, which decodes a hex
  string and UTF-8 encodes any other string. \<^verbatim>\<open>TextEncoder.encode\<close> is the UTF-8
  encoding as well; a \<open>char\<close> is a byte.\<close>

definition keccak256_viem :: "int list \<Rightarrow> string" where
  "keccak256_viem bytes = ''0x'' @ concat (map (hex2 hex_digits_lower) (keccak256 bytes))"

definition TextEncoder_encode :: "string \<Rightarrow> int list" where
  "TextEncoder_encode str = map of_char str"

definition toBytes :: "string \<Rightarrow> int list" where
  "toBytes v =
     (if take 2 v = ''0x'' \<and> list_all is_hex_digit (drop 2 v)
      then (let h = drop 2 v in parse_hex_pairs (if even (length h) then h else CHR ''0'' # h))
      else TextEncoder_encode v)"

section \<open>vrfMapper.ts: seed to hand\<close>

definition hexToBytes :: "string \<Rightarrow> error + int list" where
  "hexToBytes hex =
     (let cleanHex = (if take 2 hex = ''0x'' then drop 2 hex else hex)
      in if \<not> list_all is_hex_digit cleanHex then Inl (InvalidHexString hex)
         else (let paddedHex = (if even (length cleanHex) then cleanHex else CHR ''0'' # cleanHex)
               in Inr (parse_hex_pairs paddedHex)))"

definition byteToHex :: "int \<Rightarrow> string" where
  "byteToHex b = ''0x'' @ hex2 hex_digits_upper b"

definition mapByteToPacket :: "int \<Rightarrow> nat \<Rightarrow> int \<Rightarrow> error + Packet" where
  "mapByteToPacket b index rarityByte =
     (case mapByteToPacketType b of
        Inl e \<Rightarrow> Inl e
      | Inr t \<Rightarrow>
          Inr \<lparr>packet_id = ''packet-'' @ dec_digits index,
               hexValue = byteToHex b,
               byteValue = b,
               packet_type = t,
               rarity = (if rarityByte > 240 then LEGENDARY
                         else if rarityByte > 200 then RARE else COMMON),
               packet_value = PACKET_VALUES t\<rparr>)"

definition deriveTurnSeed :: "string \<Rightarrow> int \<Rightarrow> string" where
  "deriveTurnSeed seed turn =
     (let turnSuffix = ''Turn'' @ js_toString turn;
          seedBytes = toBytes seed;
          turnBytes = TextEncoder_encode turnSuffix;
          combined = seedBytes @ turnBytes
      in keccak256_viem combined)"

text \<open>The first error of a loop that throws ends it.\<close>

fun collect :: "('e + 'a) list \<Rightarrow> 'e + 'a list" where
  "collect [] = Inr []"
| "collect (Inl e # rs) = Inl e"
| "collect (Inr r # rs) = (case collect rs of Inl e \<Rightarrow> Inl e | Inr xs \<Rightarrow> Inr (r # xs))"

text \<open>Indexing an array in JavaScript: \<open>None\<close> is \<^verbatim>\<open>undefined\<close>.\<close>

definition js_nth :: "'a list \<Rightarrow> nat \<Rightarrow> 'a option" where
  "js_nth xs i = (if i < length xs then Some (xs ! i) else None)"

record DerivedHand =
  packets :: "Packet list"
  hand_anomaly :: AnomalyType
  hand_jackpotHit :: bool

text \<open>A comparison with \<^verbatim>\<open>undefined\<close> is false, so a missing byte 12 means STABLE and a
  missing byte 31 no jackpot. With no bytes at all the packet indices are \<^verbatim>\<open>NaN\<close> and
  \<^verbatim>\<open>mapByteToPacket\<close> fails on \<^verbatim>\<open>undefined.toString\<close>. Keccak-256 gives 32 bytes, so
  neither happens.\<close>

definition derivePacketsFromSeed :: "string \<Rightarrow> int \<Rightarrow> error + DerivedHand" where
  "derivePacketsFromSeed seed turn =
     (case calculatePacketCount turn of
        Inl e \<Rightarrow> Inl e
      | Inr packetCount \<Rightarrow>
          (case hexToBytes (deriveTurnSeed seed turn) of
             Inl e \<Rightarrow> Inl e
           | Inr seedBytes \<Rightarrow>
               (let anomaly' = (case js_nth seedBytes 12 of
                        None \<Rightarrow> STABLE
                      | Some anomalyByte \<Rightarrow>
                          if anomalyByte \<le> 30 then ION_STORM
                          else if anomalyByte \<le> 60 then DATA_LEAK
                          else if anomalyByte \<le> 90 then OVERCLOCK
                          else STABLE);
                    jackpot = (case js_nth seedBytes 31 of
                        None \<Rightarrow> False
                      | Some jackpotByte \<Rightarrow> jackpotByte \<ge> 250)
                in case collect (map (\<lambda>i.
                          if seedBytes = [] then Inl TypeError
                          else (let baseIndex = i * 2;
                                    typeByteIndex = baseIndex mod length seedBytes;
                                    rarityByteIndex = (baseIndex + 1) mod length seedBytes
                                in mapByteToPacket (seedBytes ! typeByteIndex) i
                                     (seedBytes ! rarityByteIndex)))
                        [0 ..< nat packetCount]) of
                     Inl e \<Rightarrow> Inl e
                   | Inr ps \<Rightarrow> Inr \<lparr>packets = ps, hand_anomaly = anomaly',
                                    hand_jackpotHit = jackpot\<rparr>)))"

section \<open>TurnVerifier.sol: seed to hand\<close>

definition VALUE_MISS :: byte where "VALUE_MISS = 0"
definition VALUE_ATTACK :: byte where "VALUE_ATTACK = 5"
definition VALUE_DEFEND :: byte where "VALUE_DEFEND = 5"
definition VALUE_CRIT :: byte where "VALUE_CRIT = 15"
definition VALUE_HEAL :: byte where "VALUE_HEAL = 10"

definition getPacketValue_sol :: "PacketType \<Rightarrow> byte" where
  "getPacketValue_sol pType =
     (if pType = MISS then VALUE_MISS
      else if pType = ATTACK then VALUE_ATTACK
      else if pType = DEFEND then VALUE_DEFEND
      else if pType = CRIT then VALUE_CRIT
      else if pType = HEAL then VALUE_HEAL
      else 0)"

text \<open>The builtin \<^verbatim>\<open>keccak256\<close> on \<^verbatim>\<open>bytes\<close>; a \<^verbatim>\<open>bytes32\<close> is the list of its 32
  bytes, first byte first.\<close>

definition keccak256_sol :: "byte list \<Rightarrow> byte list" where
  "keccak256_sol bs = map word_of_int (keccak256 (map uint bs))"

text \<open>\<^verbatim>\<open>abi.encodePacked(levelSeed, "Turn", turn)\<close>: the 32 bytes of the seed, the four
  bytes of the literal, and the \<^verbatim>\<open>uint8\<close> as one byte.\<close>

definition deriveTurnSeed_sol :: "byte list \<Rightarrow> byte \<Rightarrow> byte list" where
  "deriveTurnSeed_sol seed turn = keccak256_sol (seed @ map of_char ''Turn'' @ [turn])"

definition deriveHand_sol :: "byte list \<Rightarrow> byte \<Rightarrow> Packet_sol list" where
  "deriveHand_sol seed turn =
     (let packetCount = calculatePacketCount_sol turn;
          turnSeed = deriveTurnSeed_sol seed turn
      in map (\<lambda>i. let byteValue' = turnSeed ! (i mod 32);
                       pType = mapByteToPacketType_sol byteValue'
                   in \<lparr>byteValue_sol = byteValue', packetType_sol = pType,
                       value_sol = getPacketValue_sol pType\<rparr>)
           [0 ..< unat packetCount])"

text \<open>What the claims compare of a packet: its source byte, its kind, its magnitude.\<close>

definition packet_view :: "Packet \<Rightarrow> int \<times> PacketType \<times> int" where
  "packet_view p = (byteValue p, packet_type p, packet_value p)"

definition packet_view_sol :: "Packet_sol \<Rightarrow> int \<times> PacketType \<times> int" where
  "packet_view_sol p = (uint (byteValue_sol p), packetType_sol p, uint (value_sol p))"

section \<open>State commitments\<close>

text \<open>\<^verbatim>\<open>JSON.stringify\<close> on what \<^verbatim>\<open>serializeStateForHash\<close> builds: objects, arrays,
  strings and integers. A string is quoted with the escapes of ECMAScript's
  \<^verbatim>\<open>QuoteJSONString\<close>.\<close>

datatype json = JString string | JNumber int | JArray "json list" | JObject "(string \<times> json) list"

definition escape_json_char :: "char \<Rightarrow> string" where
  "escape_json_char c =
     (if c = CHR 0x22 then [CHR 0x5C, CHR 0x22]
      else if c = CHR 0x5C then [CHR 0x5C, CHR 0x5C]
      else if c = CHR 0x08 then [CHR 0x5C, CHR ''b'']
      else if c = CHR 0x09 then [CHR 0x5C, CHR ''t'']
      else if c = CHR 0x0A then [CHR 0x5C, CHR ''n'']
      else if c = CHR 0x0C then [CHR 0x5C, CHR ''f'']
      else if c = CHR 0x0D then [CHR 0x5C, CHR ''r'']
      else if (of_char c :: nat) < 32
      then [CHR 0x5C, CHR ''u'', CHR ''0'', CHR ''0''] @ hex2 hex_digits_lower (of_char c)
      else [c])"

definition quote_json :: "string \<Rightarrow> string" where
  "quote_json str = [CHR 0x22] @ concat (map escape_json_char str) @ [CHR 0x22]"

fun join_comma :: "string list \<Rightarrow> string" where
  "join_comma [] = []"
| "join_comma [x] = x"
| "join_comma (x # y # ys) = x @ '','' @ join_comma (y # ys)"

primrec JSON_stringify :: "json \<Rightarrow> string" where
  "JSON_stringify (JString str) = quote_json str"
| "JSON_stringify (JNumber n) = js_toString n"
| "JSON_stringify (JArray xs) = ''['' @ join_comma (map JSON_stringify xs) @ '']''"
| "JSON_stringify (JObject kvs) =
     ''{'' @ join_comma (map (\<lambda>(k, v). quote_json k @ '':'' @ v)
                           (map (map_prod id JSON_stringify) kvs)) @ ''}''"

text \<open>\<^verbatim>\<open>Array.prototype.sort\<close> with a comparator: a stable sort. An element goes in front
  of the first element it does not compare greater than.\<close>

fun js_sort_insert :: "('a \<Rightarrow> 'a \<Rightarrow> int) \<Rightarrow> 'a \<Rightarrow> 'a list \<Rightarrow> 'a list" where
  "js_sort_insert cmp x [] = [x]"
| "js_sort_insert cmp x (y # ys) =
     (if cmp x y \<le> 0 then x # y # ys else y # js_sort_insert cmp x ys)"

definition js_sort :: "('a \<Rightarrow> 'a \<Rightarrow> int) \<Rightarrow> 'a list \<Rightarrow> 'a list" where
  "js_sort cmp xs = foldr (js_sort_insert cmp) xs []"

fun GameStatus_string :: "GameStatus \<Rightarrow> string" where
  "GameStatus_string INIT = ''INIT''"
| "GameStatus_string WAITING_FOR_VRF = ''WAITING_FOR_VRF''"
| "GameStatus_string PLANNING = ''PLANNING''"
| "GameStatus_string EXECUTING = ''EXECUTING''"
| "GameStatus_string RESOLVED = ''RESOLVED''"

text \<open>\<^verbatim>\<open>String.prototype.localeCompare\<close> is the host's collation; it is the first
  argument here. The enemies are reduced to id and hp and sorted on the id.\<close>

definition serializeStateForHash :: "(string \<Rightarrow> string \<Rightarrow> int) \<Rightarrow> GameState \<Rightarrow> string" where
  "serializeStateForHash localeCompare s =
     JSON_stringify (JObject
       [(''status'', JString (GameStatus_string (status s))),
        (''levelSeed'', JString (levelSeed s)),
        (''turnCounter'', JNumber (turnCounter s)),
        (''levelId'', JNumber (levelId s)),
        (''player'', JObject [(''hp'', JNumber (player_hp (player s))),
                              (''shield'', JNumber (player_shield (player s)))]),
        (''enemies'', JArray
           (map (\<lambda>(i, h). JObject [(''id'', JString i), (''hp'', JNumber h)])
              (js_sort (\<lambda>a b. localeCompare (fst a) (fst b))
                 (map (\<lambda>e. (enemy_id e, enemy_hp e)) (enemies s)))))])"

text \<open>\<^verbatim>\<open>abi.encodePacked\<close> of the integer types: big-endian, in the width of the type.\<close>

definition packed16 :: "16 word \<Rightarrow> byte list" where
  "packed16 w = [ucast (drop_bit 8 w), ucast w]"

definition packed32 :: "32 word \<Rightarrow> byte list" where
  "packed32 w = [ucast (drop_bit 24 w), ucast (drop_bit 16 w), ucast (drop_bit 8 w), ucast w]"

definition packed_bool :: "bool \<Rightarrow> byte list" where
  "packed_bool b = [if b then 1 else 0]"

text \<open>The bytes of one enemy as the loop of \<^verbatim>\<open>computeStateHash\<close> appends them to
  \<^verbatim>\<open>enemyData\<close>, in the order of the array. The loop counter is a \<^verbatim>\<open>uint8\<close>: with 256
  enemies or more its increment overflows and the call panics.\<close>

definition enemy_packed :: "Enemy_sol \<Rightarrow> byte list" where
  "enemy_packed e = [enemy_id_sol e] @ packed16 (enemy_hp_sol e) @ packed16 (enemy_maxHp_sol e)
     @ [enemy_damage_sol e] @ packed_bool (isAttacking e) @ packed_bool (isCache e)"

definition computeStateHash_sol ::
  "Player_sol \<Rightarrow> Enemy_sol list \<Rightarrow> byte \<Rightarrow> 32 word \<Rightarrow> revert + byte list" where
  "computeStateHash_sol p es turn sc =
     (if length es \<ge> 256 then Inl PanicOverflow
      else (let enemyData = foldl (\<lambda>acc e. acc @ enemy_packed e) [] es
            in Inr (keccak256_sol (packed16 (player_hp_sol p) @ packed16 (player_maxHp_sol p)
                     @ packed16 (player_shield_sol p) @ [turn] @ packed32 sc @ enemyData))))"

text \<open>\<^verbatim>\<open>_getDefaultEnemies()\<close> of \<^verbatim>\<open>FateboundCore\<close>: the level the contract starts a game
  with.\<close>

definition getDefaultEnemies :: "Enemy_sol list" where
  "getDefaultEnemies =
     [\<lparr>enemy_id_sol = 0, enemy_hp_sol = 20, enemy_maxHp_sol = 20, enemy_damage_sol = 5,
       isAttacking = True, isCache = False\<rparr>,
      \<lparr>enemy_id_sol = 1, enemy_hp_sol = 15, enemy_maxHp_sol = 15, enemy_damage_sol = 3,
       isAttacking = True, isCache = False\<rparr>,
      \<lparr>enemy_id_sol = 2, enemy_hp_sol = 30, enemy_maxHp_sol = 30, enemy_damage_sol = 8,
       isAttacking = False, isCache = False\<rparr>]"

text \<open>A comparator for trying the client's serialization: strings in the order of their
  character codes.\<close>

definition codeCompare :: "string \<Rightarrow> string \<Rightarrow> int" where
  "codeCompare a b = (if a < b then - 1 else if a = b then 0 else 1)"

section \<open>The byte-to-kind table\<close>

lemma uint_byte_of_int: "0 \<le> b \<Longrightarrow> b \<le> 255 \<Longrightarrow> uint (word_of_int b :: byte) = b"
  by (simp add: uint_word_of_int)

lemma mapByteToPacketType_sol_of_int:
  assumes "0 \<le> b" "b \<le> 255"
  shows "mapByteToPacketType_sol (word_of_int b) =
     (if b \<le> 19 then MISS else if b \<le> 150 then ATTACK
      else if b \<le> 200 then DEFEND else if b \<le> 240 then CRIT else HEAL)"
  using uint_byte_of_int [OF assms]
  by (simp add: mapByteToPacketType_sol_def THRESHOLD_MISS_def THRESHOLD_ATTACK_def
      THRESHOLD_DEFEND_def THRESHOLD_CRIT_def word_le_def)

text \<open>
  C2. For every byte \<open>b\<close> in \<open>[0,255]\<close> the client returns a kind (it does not throw), that
  kind is MISS exactly on \<open>[0,19]\<close>, ATTACK exactly on \<open>[20,150]\<close>, DEFEND exactly on
  \<open>[151,200]\<close>, CRIT exactly on \<open>[201,240]\<close> and HEAL exactly on \<open>[241,255]\<close>; exactly one of
  the five ranges of \<^verbatim>\<open>PACKET_THRESHOLDS\<close> contains \<open>b\<close>; and the Solidity table returns the
  same kind for the same byte.
\<close>

theorem byte_to_kind_partition:
  assumes "0 \<le> b" "b \<le> 255"
  shows "(mapByteToPacketType b = Inr MISS \<longleftrightarrow> 0 \<le> b \<and> b \<le> 19)
       \<and> (mapByteToPacketType b = Inr ATTACK \<longleftrightarrow> 20 \<le> b \<and> b \<le> 150)
       \<and> (mapByteToPacketType b = Inr DEFEND \<longleftrightarrow> 151 \<le> b \<and> b \<le> 200)
       \<and> (mapByteToPacketType b = Inr CRIT \<longleftrightarrow> 201 \<le> b \<and> b \<le> 240)
       \<and> (mapByteToPacketType b = Inr HEAL \<longleftrightarrow> 241 \<le> b \<and> b \<le> 255)
       \<and> (\<exists>!k. PACKET_THRESHOLDS_min k \<le> b \<and> b \<le> PACKET_THRESHOLDS_max k)
       \<and> (\<forall>k. mapByteToPacketType b = Inr k
              \<longleftrightarrow> PACKET_THRESHOLDS_min k \<le> b \<and> b \<le> PACKET_THRESHOLDS_max k)
       \<and> mapByteToPacketType b = Inr (mapByteToPacketType_sol (word_of_int b))"
proof -
  have ranges: "\<And>k. mapByteToPacketType b = Inr k
      \<longleftrightarrow> PACKET_THRESHOLDS_min k \<le> b \<and> b \<le> PACKET_THRESHOLDS_max k"
  proof -
    fix k show "mapByteToPacketType b = Inr k
      \<longleftrightarrow> PACKET_THRESHOLDS_min k \<le> b \<and> b \<le> PACKET_THRESHOLDS_max k"
      using assms by (cases k) (auto simp: mapByteToPacketType_def)
  qed
  have total: "\<exists>k. mapByteToPacketType b = Inr k"
    using assms by (simp add: mapByteToPacketType_def)
  have uniq: "\<exists>!k. PACKET_THRESHOLDS_min k \<le> b \<and> b \<le> PACKET_THRESHOLDS_max k"
  proof -
    from total obtain k where k: "mapByteToPacketType b = Inr k" by blast
    show ?thesis
    proof (rule ex1I [of _ k])
      show "PACKET_THRESHOLDS_min k \<le> b \<and> b \<le> PACKET_THRESHOLDS_max k"
        using k ranges by blast
    next
      fix k' assume "PACKET_THRESHOLDS_min k' \<le> b \<and> b \<le> PACKET_THRESHOLDS_max k'"
      then have "mapByteToPacketType b = Inr k'" using ranges by blast
      with k show "k' = k" by simp
    qed
  qed
  have sol: "mapByteToPacketType b = Inr (mapByteToPacketType_sol (word_of_int b))"
    using assms by (simp add: mapByteToPacketType_sol_of_int mapByteToPacketType_def)
  show ?thesis
    using ranges [of MISS] ranges [of ATTACK] ranges [of DEFEND] ranges [of CRIT]
      ranges [of HEAL] uniq sol assms
    by (simp add: ranges)
qed

theorem byte_to_kind_partition_witness:
  "mapByteToPacketType 150 = Inr ATTACK \<and> mapByteToPacketType 151 = Inr DEFEND
   \<and> mapByteToPacketType_sol 150 = ATTACK \<and> mapByteToPacketType_sol 151 = DEFEND"
proof -
  have a: "mapByteToPacketType 150 = Inr ATTACK \<and> mapByteToPacketType_sol 150 = ATTACK"
    using byte_to_kind_partition [of 150] by auto
  have d: "mapByteToPacketType 151 = Inr DEFEND \<and> mapByteToPacketType_sol 151 = DEFEND"
    using byte_to_kind_partition [of 151] by auto
  from a d show ?thesis by simp
qed

section \<open>Hand size\<close>

lemma calculatePacketCount_from_turn_one:
  "1 \<le> turn \<Longrightarrow> calculatePacketCount turn = Inr (5 + turn mod 3)"
  by (simp add: calculatePacketCount_def)

lemma calculatePacketCount_below_one:
  "turn < 1 \<Longrightarrow> calculatePacketCount turn = Inl (InvalidTurnNumber turn)"
  by (simp add: calculatePacketCount_def)

lemma calculatePacketCount_sol_unat:
  "unat (calculatePacketCount_sol turn) = 5 + unat turn mod 3"
proof -
  have "unat (turn mod 3) = unat turn mod 3"
    by (simp add: unat_mod)
  moreover have "unat turn mod 3 < 3" by simp
  ultimately show ?thesis
    unfolding calculatePacketCount_sol_def
    by (simp add: unat_word_ariths)
qed

text \<open>
  C5. Hand size is \<open>5 + (turn mod 3)\<close> from turn 1 on, and a turn below 1 is to fail with
  an invalid-turn error in both implementations. The client does both
  (\<open>calculatePacketCount_from_turn_one\<close>, \<open>calculatePacketCount_below_one\<close>), and the
  Solidity function computes the same size for every turn
  (\<open>calculatePacketCount_sol_unat\<close>); but it has no guard, so at turn 0, the one
  \<^verbatim>\<open>uint8\<close> below 1, it returns 5 where the client throws.
\<close>

theorem calculatePacketCount_sol_turn_zero:
  "calculatePacketCount_sol 0 = 5 \<and> calculatePacketCount 0 = Inl (InvalidTurnNumber 0)"
  by (simp add: calculatePacketCount_sol_def calculatePacketCount_def)

section \<open>Shield first, then hit points\<close>

lemma applyDamageToPlayer_absorbed:
  assumes "0 \<le> d" "0 \<le> player_shield (player s)" "d \<le> player_shield (player s)"
  shows "player_shield (player (applyDamageToPlayer s d)) = player_shield (player s) - d"
    and "player_hp (player (applyDamageToPlayer s d)) = player_hp (player s)"
  using assms by (auto simp: applyDamageToPlayer_def Let_def min_def)

lemma applyDamageToPlayer_through:
  assumes "0 \<le> player_shield (player s)" "player_shield (player s) < d"
  shows "player_shield (player (applyDamageToPlayer s d)) = 0"
    and "player_hp (player (applyDamageToPlayer s d))
           = max 0 (player_hp (player s) - (d - player_shield (player s)))"
  using assms by (auto simp: applyDamageToPlayer_def Let_def min_def)

lemma hitHp_uint:
  fixes h r :: "16 word"
  shows "uint (if h > r then h - r else 0) = max 0 (uint h - uint r)"
proof (cases "h > r")
  case True
  then have "uint r \<le> uint h" by (simp add: word_less_def)
  then have "uint (h - r) = uint h - uint r" by (simp add: uint_sub_lem)
  with True show ?thesis by (simp add: word_less_def)
next
  case False
  then have "uint h \<le> uint r" by (simp add: word_less_def)
  with False show ?thesis by simp
qed

lemma applyDamageToPlayer_sol_absorbed:
  assumes "damage \<le> player_shield_sol p"
  shows "uint (player_shield_sol (applyDamageToPlayer_sol p damage))
           = uint (player_shield_sol p) - uint damage"
    and "player_hp_sol (applyDamageToPlayer_sol p damage) = player_hp_sol p"
proof -
  have sub: "uint (player_shield_sol p - damage) = uint (player_shield_sol p) - uint damage"
    using assms by (simp add: uint_sub_lem [symmetric] word_le_def)
  show "uint (player_shield_sol (applyDamageToPlayer_sol p damage))
           = uint (player_shield_sol p) - uint damage"
  proof (cases "player_shield_sol p = 0")
    case True
    with assms have "damage = 0" by simp
    with True show ?thesis
      by (cases "player_hp_sol p = 0")
         (simp_all add: applyDamageToPlayer_sol_def word_greater_zero_iff)
  next
    case False
    then have "0 < player_shield_sol p" by (simp add: word_greater_zero_iff)
    with assms sub show ?thesis
      by (simp add: applyDamageToPlayer_sol_def)
  qed
  show "player_hp_sol (applyDamageToPlayer_sol p damage) = player_hp_sol p"
  proof (cases "player_shield_sol p = 0")
    case True
    with assms have "damage = 0" by simp
    with True show ?thesis
      by (cases "player_hp_sol p = 0")
         (simp_all add: applyDamageToPlayer_sol_def word_greater_zero_iff)
  next
    case False
    then have "0 < player_shield_sol p" by (simp add: word_greater_zero_iff)
    with assms show ?thesis
      by (simp add: applyDamageToPlayer_sol_def)
  qed
qed

lemma applyDamageToPlayer_sol_through:
  assumes "player_shield_sol p < damage"
  shows "player_shield_sol (applyDamageToPlayer_sol p damage) = 0"
    and "uint (player_hp_sol (applyDamageToPlayer_sol p damage))
           = max 0 (uint (player_hp_sol p) - (uint damage - uint (player_shield_sol p)))"
proof -
  let ?r = "damage - player_shield_sol p"
  have r: "uint ?r = uint damage - uint (player_shield_sol p)"
    using assms by (simp add: uint_sub_lem [symmetric] word_less_def)
  have not_ge: "\<not> damage \<le> player_shield_sol p" using assms by simp
  have step: "applyDamageToPlayer_sol p damage
      = p\<lparr>player_shield_sol := 0,
          player_hp_sol := (if player_hp_sol p > ?r then player_hp_sol p - ?r else 0)\<rparr>"
    using not_ge
    by (cases "player_shield_sol p = 0")
       (auto simp: applyDamageToPlayer_sol_def Let_def word_greater_zero_iff)
  show "player_shield_sol (applyDamageToPlayer_sol p damage) = 0"
    by (simp add: step)
  show "uint (player_hp_sol (applyDamageToPlayer_sol p damage))
           = max 0 (uint (player_hp_sol p) - (uint damage - uint (player_shield_sol p)))"
    using hitHp_uint [of ?r "player_hp_sol p"] r by (simp add: step)
qed


text \<open>
  C8. With shield \<open>s\<close>, hit points \<open>h\<close> and incoming damage \<open>d\<close> (all non-negative):
  if \<open>d \<le> s\<close> the shield becomes \<open>s - d\<close> and \<open>h\<close> is unchanged; if \<open>d > s\<close> the shield
  becomes 0 and the hit points become \<open>h - (d - s)\<close>, floored at 0. Both
  \<^verbatim>\<open>applyDamageToPlayer\<close> functions, the client's and the verifier's, do this.
\<close>

theorem shield_then_hp:
  assumes "0 \<le> d" "0 \<le> player_shield (player s)"
  shows "(d \<le> player_shield (player s) \<longrightarrow>
            player_shield (player (applyDamageToPlayer s d)) = player_shield (player s) - d
          \<and> player_hp (player (applyDamageToPlayer s d)) = player_hp (player s))
       \<and> (d > player_shield (player s) \<longrightarrow>
            player_shield (player (applyDamageToPlayer s d)) = 0
          \<and> player_hp (player (applyDamageToPlayer s d))
              = max 0 (player_hp (player s) - (d - player_shield (player s))))
       \<and> (dmg \<le> player_shield_sol p \<longrightarrow>
            uint (player_shield_sol (applyDamageToPlayer_sol p dmg))
              = uint (player_shield_sol p) - uint dmg
          \<and> player_hp_sol (applyDamageToPlayer_sol p dmg) = player_hp_sol p)
       \<and> (dmg > player_shield_sol p \<longrightarrow>
            player_shield_sol (applyDamageToPlayer_sol p dmg) = 0
          \<and> uint (player_hp_sol (applyDamageToPlayer_sol p dmg))
              = max 0 (uint (player_hp_sol p) - (uint dmg - uint (player_shield_sol p))))"
  using assms applyDamageToPlayer_absorbed [of d s] applyDamageToPlayer_through [of s d]
    applyDamageToPlayer_sol_absorbed [of dmg p] applyDamageToPlayer_sol_through [of p dmg]
  by simp

theorem shield_then_hp_witness:
  "player_shield (player (applyDamageToPlayer
       (createTestState\<lparr>player := (player createTestState)\<lparr>player_shield := 3\<rparr>\<rparr>) 10)) = 0
   \<and> player_hp (player (applyDamageToPlayer
       (createTestState\<lparr>player := (player createTestState)\<lparr>player_shield := 3\<rparr>\<rparr>) 10)) = 93
   \<and> player_shield_sol (applyDamageToPlayer_sol
       \<lparr>player_hp_sol = 100, player_maxHp_sol = 100, player_shield_sol = 3\<rparr> 10) = 0
   \<and> uint (player_hp_sol (applyDamageToPlayer_sol
       \<lparr>player_hp_sol = 100, player_maxHp_sol = 100, player_shield_sol = 3\<rparr> 10)) = 93"
  using shield_then_hp [of 10
      "createTestState\<lparr>player := (player createTestState)\<lparr>player_shield := 3\<rparr>\<rparr>"
      10 "\<lparr>player_hp_sol = 100, player_maxHp_sol = 100, player_shield_sol = 3\<rparr>"]
  by (simp add: createTestState_def)

section \<open>Packets on enemies\<close>

lemma find_update_first:
  "find P es = Some e \<Longrightarrow> P (f e) \<Longrightarrow> find P (update_first P f es) = Some (f e)"
  by (induction es) (auto split: if_splits)

lemma update_first_length: "length (update_first P f es) = length es"
  by (induction es) auto

lemma update_first_others:
  "\<not> P x \<Longrightarrow> x \<in> set (update_first P f es) \<longleftrightarrow> x \<in> set es"
  if "\<And>y. P y \<Longrightarrow> P (f y)"
  using that by (induction es) auto

lemma applyPacketEffect_enemy_damage:
  assumes "target \<noteq> ''trash''" "target \<noteq> ''player''"
    and "find (\<lambda>x. enemy_id x = target) (enemies s) = Some e"
    and "enemy_type e \<noteq> ''CACHE_GOLD''"
    and "packet_type p = ATTACK \<or> packet_type p = CRIT"
  shows "applyPacketEffect s p target
     = Inr (s\<lparr>enemies := update_first (\<lambda>x. enemy_id x = target)
               (\<lambda>x. x\<lparr>enemy_hp := max 0 (enemy_hp x - effectiveValue s p)\<rparr>) (enemies s)\<rparr>)"
  using assms by (auto simp: applyPacketEffect_def)

lemma applyPacketEffect_enemy_no_damage:
  assumes "target \<noteq> ''trash''" "target \<noteq> ''player''"
    and "find (\<lambda>x. enemy_id x = target) (enemies s) = Some e"
    and "enemy_type e \<noteq> ''CACHE_GOLD''"
    and "packet_type p = DEFEND \<or> packet_type p = HEAL \<or> packet_type p = MISS"
  shows "applyPacketEffect s p target = Inr s"
  using assms by (auto simp: applyPacketEffect_def)

lemma applyPacketToEnemy_sol_damage:
  assumes "\<not> isCache en" "packetType_sol pk = ATTACK \<or> packetType_sol pk = CRIT"
  shows "uint (enemy_hp_sol (applyPacketToEnemy_sol en pk))
           = max 0 (uint (enemy_hp_sol en) - uint (value_sol pk))"
    and "\<exists>h. applyPacketToEnemy_sol en pk = en\<lparr>enemy_hp_sol := h\<rparr>"
proof -
  have u: "uint (ucast (value_sol pk) :: 16 word) = uint (value_sol pk)"
    by (simp add: uint_up_ucast is_up)
  have "enemy_hp_sol (applyPacketToEnemy_sol en pk)
      = (if enemy_hp_sol en > ucast (value_sol pk)
         then enemy_hp_sol en - ucast (value_sol pk) else 0)"
    using assms by (auto simp: applyPacketToEnemy_sol_def)
  then show "uint (enemy_hp_sol (applyPacketToEnemy_sol en pk))
           = max 0 (uint (enemy_hp_sol en) - uint (value_sol pk))"
    using hitHp_uint [of "ucast (value_sol pk)" "enemy_hp_sol en"] u by simp
  show "\<exists>h. applyPacketToEnemy_sol en pk = en\<lparr>enemy_hp_sol := h\<rparr>"
    using assms by (auto simp: applyPacketToEnemy_sol_def)
qed

lemma applyPacketToEnemy_sol_no_damage:
  assumes "\<not> isCache en"
    "packetType_sol pk = DEFEND \<or> packetType_sol pk = HEAL \<or> packetType_sol pk = MISS"
  shows "applyPacketToEnemy_sol en pk = en"
  using assms by (auto simp: applyPacketToEnemy_sol_def)

lemma effectiveValue_magnitude:
  "effectiveValue s p
     = (case rarity p of
          COMMON \<Rightarrow> packet_value p
        | RARE \<Rightarrow> (packet_value p * 3) div 2
        | LEGENDARY \<Rightarrow> packet_value p * 2)
       + (if anomaly s = OVERCLOCK \<and> packet_type p = ATTACK then 5 else 0)"
  by (cases "rarity p") (simp_all add: effectiveValue_def Let_def)

lemma rare_multiplier_rounds_down:
  "2 * ((v * 3) div 2) \<le> 3 * v \<and> 3 * v < 2 * ((v * 3) div 2) + 2"
  for v :: int
  by presburger

text \<open>
  C9. An ATTACK or CRIT packet on an enemy that is not immune-except-crit sets the enemy's
  hit points to \<open>max 0 (hp - m)\<close>: never negative, overkill discarded, and an enemy at 2
  hit by a magnitude of at least 2 ends at exactly 0. In the client \<open>m\<close> is the effective
  magnitude: the packet's value for a COMMON packet, one and a half times the value
  rounded down (\<open>rare_multiplier_rounds_down\<close>) for a RARE one, twice the value for a
  LEGENDARY one, and 5 more for an ATTACK packet while the anomaly is OVERCLOCK. The
  verifier's packets carry no rarity and its resolver knows no anomaly: it subtracts the
  packet's \<^verbatim>\<open>value\<close>, the base magnitude of the kind. DEFEND, HEAL and MISS leave the enemy
  as it was. The client changes the first enemy carrying the target id; the verifier
  changes the enemy it is handed.
\<close>

theorem enemy_overkill:
  fixes m :: int
  assumes "target \<noteq> ''trash''" "target \<noteq> ''player''"
    and "find (\<lambda>x. enemy_id x = target) (enemies s) = Some e"
    and "enemy_type e \<noteq> ''CACHE_GOLD''"
    and "\<not> isCache en"
    and m: "m = (case rarity p of
                   COMMON \<Rightarrow> packet_value p
                 | RARE \<Rightarrow> (packet_value p * 3) div 2
                 | LEGENDARY \<Rightarrow> packet_value p * 2)
                + (if anomaly s = OVERCLOCK \<and> packet_type p = ATTACK then 5 else 0)"
  shows "(packet_type p = ATTACK \<or> packet_type p = CRIT \<longrightarrow>
           (\<exists>s'. applyPacketEffect s p target = Inr s'
              \<and> find (\<lambda>x. enemy_id x = target) (enemies s')
                   = Some (e\<lparr>enemy_hp := max 0 (enemy_hp e - m)\<rparr>)
              \<and> enemies s' = update_first (\<lambda>x. enemy_id x = target)
                   (\<lambda>x. x\<lparr>enemy_hp := max 0 (enemy_hp x - m)\<rparr>) (enemies s)
              \<and> s' = s\<lparr>enemies := enemies s'\<rparr>)
           \<and> 0 \<le> max 0 (enemy_hp e - m)
           \<and> (enemy_hp e = 2 \<and> 2 \<le> m \<longrightarrow> max 0 (enemy_hp e - m) = 0))
       \<and> (packet_type p = DEFEND \<or> packet_type p = HEAL \<or> packet_type p = MISS \<longrightarrow>
           applyPacketEffect s p target = Inr s)
       \<and> (packetType_sol pk = ATTACK \<or> packetType_sol pk = CRIT \<longrightarrow>
           uint (enemy_hp_sol (applyPacketToEnemy_sol en pk))
             = max 0 (uint (enemy_hp_sol en) - uint (value_sol pk))
           \<and> (\<exists>h. applyPacketToEnemy_sol en pk = en\<lparr>enemy_hp_sol := h\<rparr>))
       \<and> (packetType_sol pk = DEFEND \<or> packetType_sol pk = HEAL \<or> packetType_sol pk = MISS \<longrightarrow>
           applyPacketToEnemy_sol en pk = en)"
proof -
  have m': "effectiveValue s p = m"
    unfolding m by (rule effectiveValue_magnitude)
  have ts_hit: "\<exists>s'. applyPacketEffect s p target = Inr s'
              \<and> find (\<lambda>x. enemy_id x = target) (enemies s')
                   = Some (e\<lparr>enemy_hp := max 0 (enemy_hp e - m)\<rparr>)
              \<and> enemies s' = update_first (\<lambda>x. enemy_id x = target)
                   (\<lambda>x. x\<lparr>enemy_hp := max 0 (enemy_hp x - m)\<rparr>) (enemies s)
              \<and> s' = s\<lparr>enemies := enemies s'\<rparr>"
    if hit: "packet_type p = ATTACK \<or> packet_type p = CRIT"
  proof -
    have id_e: "enemy_id e = target"
      using assms(3) by (auto simp: find_Some_iff)
    have "find (\<lambda>x. enemy_id x = target)
            (update_first (\<lambda>x. enemy_id x = target)
               (\<lambda>x. x\<lparr>enemy_hp := max 0 (enemy_hp x - m)\<rparr>) (enemies s))
          = Some (e\<lparr>enemy_hp := max 0 (enemy_hp e - m)\<rparr>)"
      using assms(3) id_e by (intro find_update_first) simp_all
    then show ?thesis
      using applyPacketEffect_enemy_damage [OF assms(1-4) hit] by (simp add: m')
  qed
  show ?thesis
    using ts_hit applyPacketEffect_enemy_no_damage [OF assms(1-4), of p]
      applyPacketToEnemy_sol_damage [OF assms(5), of pk]
      applyPacketToEnemy_sol_no_damage [OF assms(5), of pk]
    by (intro conjI impI) simp_all
qed

theorem enemy_overkill_witness:
  "applyPacketEffect (createTestState\<lparr>anomaly := OVERCLOCK\<rparr>)
      (createTestPacket\<lparr>rarity := RARE\<rparr>) ''enemy-0''
    = Inr (createTestState\<lparr>anomaly := OVERCLOCK,
             enemies := map (\<lambda>x. x\<lparr>enemy_hp := 8\<rparr>) (enemies createTestState)\<rparr>)
   \<and> applyPacketEffect
      (createTestState\<lparr>enemies := map (\<lambda>x. x\<lparr>enemy_hp := 2\<rparr>) (enemies createTestState)\<rparr>)
      (createTestPacket\<lparr>packet_type := CRIT, rarity := LEGENDARY, packet_value := 15\<rparr>)
      ''enemy-0''
    = Inr (createTestState\<lparr>enemies := map (\<lambda>x. x\<lparr>enemy_hp := 0\<rparr>) (enemies createTestState)\<rparr>)
   \<and> uint (enemy_hp_sol (applyPacketToEnemy_sol
        \<lparr>enemy_id_sol = 0, enemy_hp_sol = 2, enemy_maxHp_sol = 20, enemy_damage_sol = 5,
         isAttacking = True, isCache = False\<rparr>
        \<lparr>byteValue_sol = 220, packetType_sol = CRIT, value_sol = 15\<rparr>)) = 0
   \<and> uint (enemy_hp_sol (applyPacketToEnemy_sol
        \<lparr>enemy_id_sol = 0, enemy_hp_sol = 20, enemy_maxHp_sol = 20, enemy_damage_sol = 5,
         isAttacking = True, isCache = False\<rparr>
        \<lparr>byteValue_sol = 100, packetType_sol = ATTACK, value_sol = 5\<rparr>)) = 15"
proof -
  have rare_overclock:
    "applyPacketEffect (createTestState\<lparr>anomaly := OVERCLOCK\<rparr>)
        (createTestPacket\<lparr>rarity := RARE\<rparr>) ''enemy-0''
      = Inr (createTestState\<lparr>anomaly := OVERCLOCK,
               enemies := map (\<lambda>x. x\<lparr>enemy_hp := 8\<rparr>) (enemies createTestState)\<rparr>)
     \<and> uint (enemy_hp_sol (applyPacketToEnemy_sol
          \<lparr>enemy_id_sol = 0, enemy_hp_sol = 20, enemy_maxHp_sol = 20, enemy_damage_sol = 5,
           isAttacking = True, isCache = False\<rparr>
          \<lparr>byteValue_sol = 100, packetType_sol = ATTACK, value_sol = 5\<rparr>)) = 15"
    using enemy_overkill [where target = "''enemy-0''"
        and s = "createTestState\<lparr>anomaly := OVERCLOCK\<rparr>"
        and e = "hd (enemies createTestState)"
        and en = "\<lparr>enemy_id_sol = 0, enemy_hp_sol = 20, enemy_maxHp_sol = 20,
           enemy_damage_sol = 5, isAttacking = True, isCache = False\<rparr>"
        and p = "createTestPacket\<lparr>rarity := RARE\<rparr>"
        and m = 12
        and pk = "\<lparr>byteValue_sol = 100, packetType_sol = ATTACK, value_sol = 5\<rparr>"]
    by (auto simp: createTestState_def createTestPacket_def)
  have legendary_overkill:
    "applyPacketEffect
        (createTestState\<lparr>enemies := map (\<lambda>x. x\<lparr>enemy_hp := 2\<rparr>) (enemies createTestState)\<rparr>)
        (createTestPacket\<lparr>packet_type := CRIT, rarity := LEGENDARY, packet_value := 15\<rparr>)
        ''enemy-0''
      = Inr (createTestState\<lparr>enemies := map (\<lambda>x. x\<lparr>enemy_hp := 0\<rparr>) (enemies createTestState)\<rparr>)
     \<and> uint (enemy_hp_sol (applyPacketToEnemy_sol
          \<lparr>enemy_id_sol = 0, enemy_hp_sol = 2, enemy_maxHp_sol = 20, enemy_damage_sol = 5,
           isAttacking = True, isCache = False\<rparr>
          \<lparr>byteValue_sol = 220, packetType_sol = CRIT, value_sol = 15\<rparr>)) = 0"
    using enemy_overkill [where target = "''enemy-0''"
        and s = "createTestState\<lparr>enemies := map (\<lambda>x. x\<lparr>enemy_hp := 2\<rparr>)
                   (enemies createTestState)\<rparr>"
        and e = "hd (enemies createTestState)\<lparr>enemy_hp := 2\<rparr>"
        and en = "\<lparr>enemy_id_sol = 0, enemy_hp_sol = 2, enemy_maxHp_sol = 20,
           enemy_damage_sol = 5, isAttacking = True, isCache = False\<rparr>"
        and p = "createTestPacket\<lparr>packet_type := CRIT, rarity := LEGENDARY,
           packet_value := 15\<rparr>"
        and m = 30
        and pk = "\<lparr>byteValue_sol = 220, packetType_sol = CRIT, value_sol = 15\<rparr>"]
    by (auto simp: createTestState_def createTestPacket_def)
  from rare_overclock legendary_overkill show ?thesis by simp
qed

section \<open>Damage packets aimed at the player\<close>

text \<open>
  C7 as stated claims that an ATTACK or CRIT packet assigned to the player damages the
  player in the verifier too. It does not: \<^verbatim>\<open>applyPacketToPlayer\<close> only has branches for
  HEAL and DEFEND. An ATTACK of 5 on a player at 100 leaves the verifier's player at 100,
  where shield-then-hp damage gives 95.
\<close>

theorem self_damage_sol_counterexample:
  "applyPacketToPlayer_sol
      \<lparr>player_hp_sol = 100, player_maxHp_sol = 100, player_shield_sol = 0\<rparr>
      \<lparr>byteValue_sol = 100, packetType_sol = ATTACK, value_sol = 5\<rparr>
    = Inr \<lparr>player_hp_sol = 100, player_maxHp_sol = 100, player_shield_sol = 0\<rparr>
   \<and> applyDamageToPlayer_sol
      \<lparr>player_hp_sol = 100, player_maxHp_sol = 100, player_shield_sol = 0\<rparr> 5
    = \<lparr>player_hp_sol = 95, player_maxHp_sol = 100, player_shield_sol = 0\<rparr>"
  by (simp add: applyPacketToPlayer_sol_def applyDamageToPlayer_sol_def)

text \<open>
  C7, amended. For every ATTACK or CRIT packet assigned to the player, the client resolver
  applies the packet's effective magnitude as damage through the shield-then-hp rule; the
  verifier's \<^verbatim>\<open>applyPacketToPlayer\<close> returns the player unchanged.
\<close>

theorem self_damage:
  assumes "packet_type p = ATTACK \<or> packet_type p = CRIT"
    and "packetType_sol pk = ATTACK \<or> packetType_sol pk = CRIT"
  shows "applyPacketEffect s p ''player'' = Inr (applyDamageToPlayer s (effectiveValue s p))
       \<and> applyPacketToPlayer_sol pl pk = Inr pl"
  using assms by (auto simp: applyPacketEffect_def applyPacketToPlayer_sol_def)

theorem self_damage_witness:
  "player_hp (player (projr (applyPacketEffect createTestState createTestPacket ''player''))) = 95
   \<and> applyPacketToPlayer_sol
        \<lparr>player_hp_sol = 100, player_maxHp_sol = 100, player_shield_sol = 0\<rparr>
        \<lparr>byteValue_sol = 220, packetType_sol = CRIT, value_sol = 15\<rparr>
      = Inr \<lparr>player_hp_sol = 100, player_maxHp_sol = 100, player_shield_sol = 0\<rparr>"
  using self_damage [of createTestPacket
      "\<lparr>byteValue_sol = 220, packetType_sol = CRIT, value_sol = 15\<rparr>" createTestState
      "\<lparr>player_hp_sol = 100, player_maxHp_sol = 100, player_shield_sol = 0\<rparr>"]
  by (simp add: createTestState_def createTestPacket_def effectiveValue_def
      applyDamageToPlayer_def)

section \<open>The jackpot bonus\<close>

text \<open>Nothing in the resolver reads the score except to add to it, so a score offset
  passes through every stage.\<close>

lemma bump_fields [simp]:
  "player (bump k s) = player s" "enemies (bump k s) = enemies s"
  "dataStream (bump k s) = dataStream s" "anomaly (bump k s) = anomaly s"
  "jackpotHit (bump k s) = jackpotHit s" "score (bump k s) = score s + k"
  by (simp_all add: bump_def)

lemma effectiveValue_bump [simp]: "effectiveValue (bump k s) p = effectiveValue s p"
  by (simp add: effectiveValue_def)

lemma applyDamageToPlayer_bump:
  "applyDamageToPlayer (bump k s) d = bump k (applyDamageToPlayer s d)"
  by (simp add: applyDamageToPlayer_def bump_def Let_def split: prod.splits)

lemma applyPacketEffect_bump:
  "applyPacketEffect (bump k s) p t = map_sum id (bump k) (applyPacketEffect s p t)"
  by (auto simp: applyPacketEffect_def applyDamageToPlayer_bump split: PacketType.splits option.splits)
     (simp_all add: bump_def)

lemma applyAssignments_bump:
  "applyAssignments (bump k s) as = map_sum id (bump k) (applyAssignments s as)"
proof (induction as arbitrary: s)
  case Nil
  then show ?case by simp
next
  case (Cons a as)
  show ?case
  proof (cases "find (\<lambda>p. packet_id p = packetId a) (dataStream s)")
    case None
    then show ?thesis by simp
  next
    case (Some packet)
    show ?thesis
    proof (cases "applyPacketEffect s packet (targetId a)")
      case (Inl e)
      with Some show ?thesis by (simp add: applyPacketEffect_bump)
    next
      case (Inr s')
      with Some Cons.IH [of s'] show ?thesis by (simp add: applyPacketEffect_bump)
    qed
  qed
qed


lemma validateAssignments_bump [simp]:
  "validateAssignments (bump k s) as = validateAssignments s as"
  by (simp add: validateAssignments_def)

lemma foldl_bump:
  assumes "\<And>st e. f (bump k st) e = bump k (f st e)"
  shows "foldl f (bump k st) es = bump k (foldl f st es)"
  using assms by (induction es arbitrary: st) simp_all

lemma scoreKills_bump: "scoreKills cur (bump k s) = bump k (scoreKills cur s)"
  unfolding scoreKills_def bump_fields
  by (rule foldl_bump) (simp add: bump_def Let_def split: option.splits)

lemma removeDeadEnemies_bump: "removeDeadEnemies (bump k s) = bump k (removeDeadEnemies s)"
  by (simp add: removeDeadEnemies_def bump_def)

lemma executeEnemyPhase_bump: "executeEnemyPhase (bump k s) = bump k (executeEnemyPhase s)"
  unfolding executeEnemyPhase_def Let_def bump_fields
  by (rule foldl_bump) (simp add: applyDamageToPlayer_bump split: EnemyIntent.splits)

lemma checkTurnResult_bump [simp]: "checkTurnResult (bump k s) = checkTurnResult s"
  by (simp add: checkTurnResult_def)

lemma bump_update_commute:
  "(bump k s)\<lparr>enemies := es\<rparr> = bump k (s\<lparr>enemies := es\<rparr>)"
  "(bump k s)\<lparr>assignments := xs, dataStream := ds\<rparr> = bump k (s\<lparr>assignments := xs, dataStream := ds\<rparr>)"
  "(bump k s)\<lparr>turnCounter := n\<rparr> = bump k (s\<lparr>turnCounter := n\<rparr>)"
  "(bump k s)\<lparr>status := g\<rparr> = bump k (s\<lparr>status := g\<rparr>)"
  "(bump k s)\<lparr>score := score (bump k s) + j\<rparr> = bump k (s\<lparr>score := score s + j\<rparr>)"
  "turnCounter (bump k s) = turnCounter s"
  by (simp_all add: bump_def)

lemma resolveTurn_enemies_bump:
  "resolveTurn_enemies (bump k s) = bump k (resolveTurn_enemies s)"
proof -
  define storm where "storm = (\<lambda>u::GameState.
      if anomaly u = ION_STORM
      then removeDeadEnemies ((applyDamageToPlayer u 5)\<lparr>enemies :=
             map (\<lambda>e. if enemy_hp e > 0 then e\<lparr>enemy_hp := max 0 (enemy_hp e - 5)\<rparr> else e)
               (enemies (applyDamageToPlayer u 5))\<rparr>)
      else u)"
  define fin where "fin = (\<lambda>s6::GameState.
      let s8 = s6\<lparr>assignments := [], dataStream := [], turnCounter := turnCounter s6 + 1\<rparr>;
          result = checkTurnResult s8
      in if result = VICTORY \<or> result = DEFEAT then
           (if result = VICTORY then
              (if player_hp (player s8) = player_maxHp (player s8)
               then s8\<lparr>status := RESOLVED, score := score s8 + 500 + 200\<rparr>
               else s8\<lparr>status := RESOLVED, score := score s8 + 500\<rparr>)
            else s8\<lparr>status := RESOLVED\<rparr>)
         else s8\<lparr>status := WAITING_FOR_VRF\<rparr>)"
  have unfold: "resolveTurn_enemies u = fin (storm (executeEnemyPhase u))" for u
    by (simp add: resolveTurn_enemies_def storm_def fin_def Let_def)
  have storm_b: "storm (bump k u) = bump k (storm u)" for u
    by (simp add: storm_def applyDamageToPlayer_bump removeDeadEnemies_bump
        bump_update_commute)
  have fin_b: "fin (bump k u) = bump k (fin u)" for u
    by (simp add: fin_def Let_def bump_def checkTurnResult_def)
  show ?thesis
    by (simp add: unfold executeEnemyPhase_bump storm_b fin_b)
qed

lemma startOfTurn_jackpot:
  "startOfTurn (s\<lparr>jackpotHit := True\<rparr>) = bump 5000 (startOfTurn (s\<lparr>jackpotHit := False\<rparr>))"
  by (simp add: startOfTurn_def bump_def Let_def)

lemma resolveTurn_packets_jackpot:
  "resolveTurn_packets (s\<lparr>jackpotHit := True\<rparr>) as
     = map_sum id (bump 5000) (resolveTurn_packets (s\<lparr>jackpotHit := False\<rparr>) as)"
proof -
  have cur: "scoreKills (s\<lparr>jackpotHit := True\<rparr>) = scoreKills (s\<lparr>jackpotHit := False\<rparr>)"
    by (rule ext) (simp add: scoreKills_def)
  show ?thesis
    unfolding resolveTurn_packets_def cloneState_def Let_def startOfTurn_jackpot cur
    by (simp add: applyAssignments_bump scoreKills_bump removeDeadEnemies_bump
        split: sum.splits)
qed

lemma resolveTurn_jackpot:
  "resolveTurn (s\<lparr>jackpotHit := True\<rparr>) as
     = map_sum id (bump 5000) (resolveTurn (s\<lparr>jackpotHit := False\<rparr>) as)"
  by (simp add: resolveTurn_def resolveTurn_packets_jackpot resolveTurn_enemies_bump
      split: sum.splits)

lemma startOfTurn_flag: "jackpotHit (startOfTurn s) = False"
  by (simp add: startOfTurn_def Let_def)

lemma startOfTurn_score:
  "score (startOfTurn s) = (if jackpotHit s then score s + 5000 else score s)"
  by (simp add: startOfTurn_def Let_def)

lemma applyDamageToPlayer_flag [simp]:
  "jackpotHit (applyDamageToPlayer s d) = jackpotHit s"
  by (simp add: applyDamageToPlayer_def Let_def split: prod.splits)

lemma applyPacketEffect_flag:
  "applyPacketEffect s p t = Inr s' \<Longrightarrow> jackpotHit s' = jackpotHit s"
  by (auto simp: applyPacketEffect_def split: if_splits PacketType.splits option.splits)

lemma applyAssignments_flag:
  "applyAssignments s as = Inr s' \<Longrightarrow> jackpotHit s' = jackpotHit s"
proof (induction as arbitrary: s)
  case Nil
  then show ?case by simp
next
  case (Cons a as)
  then show ?case
    by (auto split: option.splits sum.splits dest: applyPacketEffect_flag)
qed

lemma foldl_flag:
  assumes "\<And>st e. jackpotHit (f st e) = jackpotHit st"
  shows "jackpotHit (foldl f st es) = jackpotHit st"
  using assms by (induction es arbitrary: st) simp_all

lemma scoreKills_flag [simp]: "jackpotHit (scoreKills cur s) = jackpotHit s"
  unfolding scoreKills_def
  by (rule foldl_flag) (simp add: Let_def split: option.splits)

lemma removeDeadEnemies_flag [simp]: "jackpotHit (removeDeadEnemies s) = jackpotHit s"
  by (simp add: removeDeadEnemies_def)

lemma executeEnemyPhase_flag [simp]: "jackpotHit (executeEnemyPhase s) = jackpotHit s"
  unfolding executeEnemyPhase_def Let_def
  by (rule foldl_flag) (simp split: EnemyIntent.splits)

lemma resolveTurn_enemies_flag [simp]: "jackpotHit (resolveTurn_enemies s) = jackpotHit s"
  by (simp add: resolveTurn_enemies_def Let_def)

lemma resolveTurn_flag:
  assumes "resolveTurn s as = Inr s'"
  shows "jackpotHit s' = False"
proof -
  from assms obtain n3 where n3: "applyAssignments (startOfTurn s) as = Inr n3"
    and s': "s' = resolveTurn_enemies (removeDeadEnemies (scoreKills s n3))"
    by (auto simp: resolveTurn_def resolveTurn_packets_def cloneState_def Let_def
        split: sum.splits)
  from applyAssignments_flag [OF n3] have "jackpotHit n3 = False"
    by (simp add: startOfTurn_flag)
  then show ?thesis by (simp add: s')
qed

text \<open>
  C10. Resolving a turn whose state has \<^verbatim>\<open>jackpotHit = true\<close> gives the result of resolving
  the same state with the flag off, with exactly 5000 more points (and the same error when
  the assignments are rejected); every state the resolver returns has the flag off, so a
  flag pays once. The bonus is the first thing the resolver does, in \<open>startOfTurn\<close>, before
  validation and before any packet; with the flag off that step adds nothing.
\<close>

theorem jackpot_bonus_once:
  "resolveTurn (s\<lparr>jackpotHit := True\<rparr>) as
     = map_sum id (\<lambda>s'. s'\<lparr>score := score s' + 5000\<rparr>)
         (resolveTurn (s\<lparr>jackpotHit := False\<rparr>) as)
   \<and> (\<forall>s'. resolveTurn s as = Inr s' \<longrightarrow> jackpotHit s' = False)
   \<and> score (startOfTurn s) = (if jackpotHit s then score s + 5000 else score s)
   \<and> jackpotHit (startOfTurn s) = False"
proof -
  have "(\<lambda>s'. s'\<lparr>score := score s' + 5000\<rparr>) = bump 5000"
    by (rule ext) (simp add: bump_def)
  then show ?thesis
    using resolveTurn_flag [of s as]
    by (simp add: resolveTurn_jackpot startOfTurn_flag startOfTurn_score)
qed

lemma resolveTurn_test_jackpot:
  "resolveTurn (createTestState\<lparr>jackpotHit := True\<rparr>)
      [\<lparr>packetId = ''packet-0'', targetId = ''enemy-0''\<rparr>]
   = Inr (createTestState\<lparr>status := WAITING_FOR_VRF, turnCounter := 2,
        player := (player createTestState)\<lparr>player_hp := 95\<rparr>,
        enemies := map (\<lambda>e. e\<lparr>enemy_hp := 15\<rparr>) (enemies createTestState),
        dataStream := [], score := 5000\<rparr>)"
  by (simp add: resolveTurn_def resolveTurn_packets_def resolveTurn_enemies_def
      startOfTurn_def cloneState_def validateAssignments_def applyPacketEffect_def
      effectiveValue_def scoreKills_def removeDeadEnemies_def executeEnemyPhase_def
      applyDamageToPlayer_def checkTurnResult_def createTestState_def createTestPacket_def)

theorem jackpot_bonus_once_witness:
  "resolveTurn (createTestState\<lparr>jackpotHit := True\<rparr>)
      [\<lparr>packetId = ''packet-0'', targetId = ''enemy-0''\<rparr>]
   = Inr (createTestState\<lparr>status := WAITING_FOR_VRF, turnCounter := 2,
        player := (player createTestState)\<lparr>player_hp := 95\<rparr>,
        enemies := map (\<lambda>e. e\<lparr>enemy_hp := 15\<rparr>) (enemies createTestState),
        dataStream := [], score := 5000\<rparr>)
   \<and> jackpotHit (createTestState\<lparr>status := WAITING_FOR_VRF, turnCounter := 2,
        player := (player createTestState)\<lparr>player_hp := 95\<rparr>,
        enemies := map (\<lambda>e. e\<lparr>enemy_hp := 15\<rparr>) (enemies createTestState),
        dataStream := [], score := 5000\<rparr>) = False"
  using jackpot_bonus_once [of "createTestState\<lparr>jackpotHit := True\<rparr>"
      "[\<lparr>packetId = ''packet-0'', targetId = ''enemy-0''\<rparr>]"]
    resolveTurn_test_jackpot
  by simp

section \<open>Rejected assignments\<close>

lemma validateAssignments_loop_Inr:
  assumes "validateAssignments_loop ids es acc as = Inr assigned"
  shows "assigned = acc \<union> set (map packetId as)
       \<and> distinct (map packetId as)
       \<and> set (map packetId as) \<inter> acc = {}
       \<and> set (map packetId as) \<subseteq> ids
       \<and> (\<forall>a \<in> set as. targetId a = ''player'' \<or> targetId a = ''trash''
              \<or> targetId a \<in> enemy_id ` set es)"
  using assms
proof (induction as arbitrary: acc)
  case Nil
  then show ?case by simp
next
  case (Cons a as)
  from Cons.prems have a: "packetId a \<in> ids" "packetId a \<notin> acc"
    "targetId a = ''player'' \<or> targetId a = ''trash'' \<or> list_ex (\<lambda>e. enemy_id e = targetId a) es"
    and rest: "validateAssignments_loop ids es (insert (packetId a) acc) as = Inr assigned"
    by (auto split: if_splits)
  from a(3) have tgt: "targetId a = ''player'' \<or> targetId a = ''trash''
      \<or> targetId a \<in> enemy_id ` set es"
    unfolding list_ex_iff by (metis image_eqI)
  from Cons.IH [OF rest] a(1,2) tgt show ?case
    by auto
qed

lemma validateAssignments_loop_Inl:
  assumes "validateAssignments_loop ids es acc as = Inl e"
  shows "(\<exists>x. e = InvalidPacketId x) \<or> (\<exists>x. e = PacketAlreadyAssigned x)
       \<or> (\<exists>x. e = InvalidTarget x)"
  using assms
  by (induction as arbitrary: acc) (auto split: if_splits)

lemma validateAssignments_Inr:
  assumes "validateAssignments s as = Inr u"
  shows "distinct (map packetId as)"
    and "set (map packetId as) = set (map packet_id (dataStream s))"
    and "\<forall>a \<in> set as. targetId a = ''player'' \<or> targetId a = ''trash''
              \<or> targetId a \<in> enemy_id ` set (enemies s)"
proof -
  let ?ids = "set (map packet_id (dataStream s))"
  from assms obtain assigned where
    loop: "validateAssignments_loop ?ids (enemies s) {} as = Inr assigned"
    and c: "card assigned = card ?ids"
    by (auto simp: validateAssignments_def Let_def split: sum.splits if_splits)
  note facts = validateAssignments_loop_Inr [OF loop]
  from facts show "distinct (map packetId as)" by simp
  from facts show "\<forall>a \<in> set as. targetId a = ''player'' \<or> targetId a = ''trash''
              \<or> targetId a \<in> enemy_id ` set (enemies s)" by simp
  from facts have sub: "assigned \<subseteq> ?ids" and eq: "assigned = set (map packetId as)"
    by auto
  have "assigned = ?ids"
    using sub c by (intro card_subset_eq) simp_all
  with eq show "set (map packetId as) = set (map packet_id (dataStream s))" by simp
qed

lemma validateAssignments_Inl:
  assumes "validateAssignments s as = Inl e"
  shows "(\<exists>x. e = InvalidPacketId x) \<or> (\<exists>x. e = PacketAlreadyAssigned x)
       \<or> (\<exists>x. e = InvalidTarget x) \<or> (\<exists>m n. e = NotAllPacketsAssigned m n)"
proof (cases "validateAssignments_loop (set (map packet_id (dataStream s))) (enemies s) {} as")
  case (Inl e')
  with assms have "e = e'" by (simp add: validateAssignments_def)
  with validateAssignments_loop_Inl [OF Inl] show ?thesis by auto
next
  case (Inr assigned)
  with assms show ?thesis
    by (auto simp: validateAssignments_def split: if_splits)
qed

lemma startOfTurn_fields [simp]:
  "dataStream (startOfTurn s) = dataStream s" "enemies (startOfTurn s) = enemies s"
  by (simp_all add: startOfTurn_def Let_def)

lemma validateAssignments_startOfTurn:
  "validateAssignments (startOfTurn s) as = validateAssignments s as"
  by (simp add: validateAssignments_def)

lemma resolveTurn_call_input_unchanged:
  assumes "r < next_ref st"
  shows "contents (fst (resolveTurn_call st r as)) r = contents st r"
  using assms by (simp add: resolveTurn_call_def Let_def split: sum.splits)

text \<open>
  C4. When some packet of the hand is not assigned, or a packet is assigned more than once,
  or a target is neither \<^verbatim>\<open>'player'\<close>, nor \<^verbatim>\<open>'trash'\<close>, nor the id of an enemy of the
  state, \<^verbatim>\<open>resolveTurn\<close> throws one of the four errors of \<^verbatim>\<open>validateAssignments\<close> and
  returns no state; and the object the caller passed in still holds what it held, since
  the bonus and the regeneration that run before validation were written to the clone.
\<close>

theorem invalid_assignments_rejected:
  assumes "(\<exists>p \<in> set (dataStream s). packet_id p \<notin> packetId ` set as)
         \<or> \<not> distinct (map packetId as)
         \<or> (\<exists>a \<in> set as. targetId a \<noteq> ''player'' \<and> targetId a \<noteq> ''trash''
               \<and> targetId a \<notin> enemy_id ` set (enemies s))"
    and "contents st r = s" "r < next_ref st"
  shows "\<exists>e. validateAssignments (startOfTurn (cloneState s)) as = Inl e
           \<and> ((\<exists>x. e = InvalidPacketId x) \<or> (\<exists>x. e = PacketAlreadyAssigned x)
               \<or> (\<exists>x. e = InvalidTarget x) \<or> (\<exists>m n. e = NotAllPacketsAssigned m n))
           \<and> resolveTurn s as = Inl e
           \<and> snd (resolveTurn_call st r as) = Inl e
           \<and> contents (fst (resolveTurn_call st r as)) r = s"
proof -
  have "\<exists>e. validateAssignments s as = Inl e"
  proof (cases "validateAssignments s as")
    case (Inl e)
    then show ?thesis by blast
  next
    case (Inr u)
    from validateAssignments_Inr [OF Inr] assms(1) have False
      by (auto simp: image_iff)
    then show ?thesis ..
  qed
  then obtain e where e: "validateAssignments s as = Inl e" ..
  then have v: "validateAssignments (startOfTurn (cloneState s)) as = Inl e"
    by (simp add: validateAssignments_startOfTurn cloneState_def)
  then have rt: "resolveTurn s as = Inl e"
    by (simp add: resolveTurn_def resolveTurn_packets_def Let_def)
  have call: "snd (resolveTurn_call st r as) = Inl e"
    using rt assms(2) by (simp add: resolveTurn_call_def Let_def)
  from validateAssignments_Inl [OF e]
  have kind: "(\<exists>x. e = InvalidPacketId x) \<or> (\<exists>x. e = PacketAlreadyAssigned x)
       \<or> (\<exists>x. e = InvalidTarget x) \<or> (\<exists>m n. e = NotAllPacketsAssigned m n)" .
  have same: "contents (fst (resolveTurn_call st r as)) r = s"
    using resolveTurn_call_input_unchanged [OF assms(3), of as] assms(2) by simp
  show ?thesis
    by (rule exI [of _ e]) (intro conjI v kind rt call same)
qed


lemma validateAssignments_test_missing:
  "validateAssignments (startOfTurn (cloneState
      (createTestState\<lparr>dataStream :=
         [createTestPacket, createTestPacket\<lparr>packet_id := ''packet-1''\<rparr>]\<rparr>)))
      [\<lparr>packetId = ''packet-0'', targetId = ''enemy-0''\<rparr>]
   = Inl (NotAllPacketsAssigned 2 1)"
  by (simp add: validateAssignments_def startOfTurn_def cloneState_def createTestState_def
      createTestPacket_def)

theorem invalid_assignments_rejected_witness:
  "resolveTurn
      (createTestState\<lparr>dataStream :=
         [createTestPacket, createTestPacket\<lparr>packet_id := ''packet-1''\<rparr>]\<rparr>)
      [\<lparr>packetId = ''packet-0'', targetId = ''enemy-0''\<rparr>]
     = Inl (NotAllPacketsAssigned 2 1)
   \<and> snd (resolveTurn_call
        \<lparr>contents = (\<lambda>_. createTestState\<lparr>dataStream :=
           [createTestPacket, createTestPacket\<lparr>packet_id := ''packet-1''\<rparr>]\<rparr>),
         next_ref = 1\<rparr> 0
        [\<lparr>packetId = ''packet-0'', targetId = ''enemy-0''\<rparr>])
     = Inl (NotAllPacketsAssigned 2 1)
   \<and> contents (fst (resolveTurn_call
        \<lparr>contents = (\<lambda>_. createTestState\<lparr>dataStream :=
           [createTestPacket, createTestPacket\<lparr>packet_id := ''packet-1''\<rparr>]\<rparr>),
         next_ref = 1\<rparr> 0
        [\<lparr>packetId = ''packet-0'', targetId = ''enemy-0''\<rparr>])) 0
     = createTestState\<lparr>dataStream :=
         [createTestPacket, createTestPacket\<lparr>packet_id := ''packet-1''\<rparr>]\<rparr>"
proof -
  let ?S = "createTestState\<lparr>dataStream :=
         [createTestPacket, createTestPacket\<lparr>packet_id := ''packet-1''\<rparr>]\<rparr>"
  let ?A = "[\<lparr>packetId = ''packet-0'', targetId = ''enemy-0''\<rparr>]"
  let ?ST = "\<lparr>contents = (\<lambda>_. ?S), next_ref = 1\<rparr>"
  have missing: "\<exists>p \<in> set (dataStream ?S). packet_id p \<notin> packetId ` set ?A"
    by (simp add: createTestPacket_def)
  have "(\<exists>p \<in> set (dataStream ?S). packet_id p \<notin> packetId ` set ?A)
         \<or> \<not> distinct (map packetId ?A)
         \<or> (\<exists>a \<in> set ?A. targetId a \<noteq> ''player'' \<and> targetId a \<noteq> ''trash''
               \<and> targetId a \<notin> enemy_id ` set (enemies ?S))"
    using missing by blast
  from invalid_assignments_rejected [OF this, of ?ST 0]
  obtain e where "validateAssignments (startOfTurn (cloneState ?S)) ?A = Inl e"
    and "resolveTurn ?S ?A = Inl e"
    and "snd (resolveTurn_call ?ST 0 ?A) = Inl e"
    and "contents (fst (resolveTurn_call ?ST 0 ?A)) 0 = ?S"
    by auto
  with validateAssignments_test_missing show ?thesis by simp
qed

section \<open>The enemy phase after a decided turn\<close>

lemma executeEnemyPhase_no_enemies: "enemies s = [] \<Longrightarrow> executeEnemyPhase s = s"
  by (simp add: executeEnemyPhase_def)

lemma resolveTurn_packets_self_defeat:
  "resolveTurn_packets
      (createTestState\<lparr>player := (player createTestState)\<lparr>player_hp := 5\<rparr>,
         dataStream := [createTestPacket,
           createTestPacket\<lparr>packet_id := ''packet-1'', packet_type := DEFEND\<rparr>]\<rparr>)
      [\<lparr>packetId = ''packet-0'', targetId = ''player''\<rparr>,
       \<lparr>packetId = ''packet-1'', targetId = ''player''\<rparr>]
   = Inr (createTestState\<lparr>
         player := (player createTestState)\<lparr>player_hp := 0, player_shield := 5\<rparr>,
         dataStream := [createTestPacket,
           createTestPacket\<lparr>packet_id := ''packet-1'', packet_type := DEFEND\<rparr>]\<rparr>)"
  by (simp add: resolveTurn_packets_def startOfTurn_def cloneState_def
      validateAssignments_def applyPacketEffect_def effectiveValue_def scoreKills_def
      removeDeadEnemies_def applyDamageToPlayer_def createTestState_def createTestPacket_def)

text \<open>
  C6. Enemy counter-attacks are to be applied only when the result after the packets and
  the removal of dead enemies is CONTINUE. The client calls \<^verbatim>\<open>executeEnemyPhase\<close>
  without looking at that result. With no enemy left it does nothing
  (\<open>executeEnemyPhase_no_enemies\<close>), but a defeated player is still attacked: a player
  at 5 hit points who plays an ATTACK of 5 and then a DEFEND of 5 on themselves stands at
  0 hit points and 5 shield, which is DEFEAT, and the surviving enemy's 5 damage then
  takes the shield to 0.
\<close>

theorem enemy_phase_after_defeat:
  "resolveTurn_packets
      (createTestState\<lparr>player := (player createTestState)\<lparr>player_hp := 5\<rparr>,
         dataStream := [createTestPacket,
           createTestPacket\<lparr>packet_id := ''packet-1'', packet_type := DEFEND\<rparr>]\<rparr>)
      [\<lparr>packetId = ''packet-0'', targetId = ''player''\<rparr>,
       \<lparr>packetId = ''packet-1'', targetId = ''player''\<rparr>]
     = Inr (createTestState\<lparr>
         player := (player createTestState)\<lparr>player_hp := 0, player_shield := 5\<rparr>,
         dataStream := [createTestPacket,
           createTestPacket\<lparr>packet_id := ''packet-1'', packet_type := DEFEND\<rparr>]\<rparr>)
   \<and> checkTurnResult (createTestState\<lparr>
         player := (player createTestState)\<lparr>player_hp := 0, player_shield := 5\<rparr>,
         dataStream := [createTestPacket,
           createTestPacket\<lparr>packet_id := ''packet-1'', packet_type := DEFEND\<rparr>]\<rparr>) = DEFEAT
   \<and> resolveTurn
      (createTestState\<lparr>player := (player createTestState)\<lparr>player_hp := 5\<rparr>,
         dataStream := [createTestPacket,
           createTestPacket\<lparr>packet_id := ''packet-1'', packet_type := DEFEND\<rparr>]\<rparr>)
      [\<lparr>packetId = ''packet-0'', targetId = ''player''\<rparr>,
       \<lparr>packetId = ''packet-1'', targetId = ''player''\<rparr>]
     = Inr (createTestState\<lparr>status := RESOLVED, turnCounter := 2,
         player := (player createTestState)\<lparr>player_hp := 0, player_shield := 0\<rparr>,
         dataStream := []\<rparr>)"
  unfolding resolveTurn_def resolveTurn_packets_self_defeat
  by (simp add: resolveTurn_enemies_def executeEnemyPhase_def applyDamageToPlayer_def
      checkTurnResult_def createTestState_def createTestPacket_def)

section \<open>The order of the enemies in a commitment\<close>

lemma js_sort_insert_mset: "mset (js_sort_insert cmp x ys) = add_mset x (mset ys)"
  by (induction ys) simp_all

lemma js_sort_mset: "mset (js_sort cmp xs) = mset xs"
  by (induction xs) (simp_all add: js_sort_def js_sort_insert_mset)

lemma js_sort_insert_set: "set (js_sort_insert cmp x ys) = insert x (set ys)"
  by (induction ys) auto

lemma js_sort_insert_sorted:
  assumes total: "\<And>a b. cmp a b \<le> 0 \<or> cmp b a \<le> 0"
    and trans: "\<And>a b c. cmp a b \<le> 0 \<Longrightarrow> cmp b c \<le> 0 \<Longrightarrow> cmp a c \<le> 0"
    and "sorted_wrt (\<lambda>a b. cmp a b \<le> 0) ys"
  shows "sorted_wrt (\<lambda>a b. cmp a b \<le> 0) (js_sort_insert cmp x ys)"
  using assms(3)
proof (induction ys)
  case Nil
  then show ?case by simp
next
  case (Cons y ys)
  show ?case
  proof (cases "cmp x y \<le> 0")
    case True
    have "cmp x z \<le> 0" if "z \<in> set ys" for z
      using Cons.prems that trans [OF True, of z] by simp
    with True Cons.prems show ?thesis by simp
  next
    case False
    with total [of x y] have "cmp y x \<le> 0" by simp
    with False Cons show ?thesis
      by (simp add: js_sort_insert_set)
  qed
qed

lemma js_sort_sorted:
  assumes "\<And>a b. cmp a b \<le> 0 \<or> cmp b a \<le> 0"
    and "\<And>a b c. cmp a b \<le> 0 \<Longrightarrow> cmp b c \<le> 0 \<Longrightarrow> cmp a c \<le> 0"
  shows "sorted_wrt (\<lambda>a b. cmp a b \<le> 0) (js_sort cmp xs)"
proof (induction xs)
  case Nil
  then show ?case by (simp add: js_sort_def)
next
  case (Cons x xs)
  have "js_sort cmp (x # xs) = js_sort_insert cmp x (js_sort cmp xs)"
    by (simp add: js_sort_def)
  with Cons show ?case
    using js_sort_insert_sorted [of cmp "js_sort cmp xs" x] assms by simp
qed

lemma sorted_wrt_mset_unique:
  assumes "sorted_wrt le xs" "sorted_wrt le ys" "mset xs = mset ys"
    and refl: "\<And>a. a \<in> set xs \<Longrightarrow> le a a"
    and antisym: "\<And>a b. a \<in> set xs \<Longrightarrow> b \<in> set xs \<Longrightarrow> le a b \<Longrightarrow> le b a \<Longrightarrow> a = b"
  shows "xs = ys"
  using assms
proof (induction xs arbitrary: ys)
  case Nil
  then show ?case by simp
next
  case (Cons x xs)
  from Cons.prems(3) obtain y ys' where ys: "ys = y # ys'"
    by (cases ys) auto
  have sets: "set (x # xs) = set (y # ys')"
    using Cons.prems(3) ys by (metis mset_eq_setD)
  have "le x y"
  proof (cases "y = x")
    case True
    then show ?thesis using Cons.prems(4) by simp
  next
    case False
    with sets have "y \<in> set xs" by auto
    with Cons.prems(1) show ?thesis by simp
  qed
  moreover have "le y x"
  proof (cases "x = y")
    case True
    then show ?thesis using Cons.prems(4) by simp
  next
    case False
    with sets have "x \<in> set ys'" by auto
    with Cons.prems(2) ys show ?thesis by simp
  qed
  moreover have "y \<in> set (x # xs)" using sets by simp
  ultimately have xy: "x = y"
    using Cons.prems(5) [of x y] by simp
  with Cons.prems(3) ys have tails: "mset xs = mset ys'" by simp
  have "xs = ys'"
  proof (rule Cons.IH)
    show "sorted_wrt le xs" using Cons.prems(1) by simp
    show "sorted_wrt le ys'" using Cons.prems(2) ys by simp
    show "mset xs = mset ys'" by (rule tails)
    show "le a a" if "a \<in> set xs" for a using that Cons.prems(4) by simp
    show "a = b" if "a \<in> set xs" "b \<in> set xs" "le a b" "le b a" for a b
      using that Cons.prems(5) [of a b] by simp
  qed
  with xy ys show ?case by simp
qed

lemma js_sort_permutation:
  assumes total: "\<And>a b. cmp a b \<le> 0 \<or> cmp b a \<le> 0"
    and trans: "\<And>a b c. cmp a b \<le> 0 \<Longrightarrow> cmp b c \<le> 0 \<Longrightarrow> cmp a c \<le> 0"
    and noties: "\<And>a b. a \<in> set xs \<Longrightarrow> b \<in> set xs \<Longrightarrow> cmp a b \<le> 0 \<Longrightarrow> cmp b a \<le> 0
                   \<Longrightarrow> a = b"
    and perm: "mset ys = mset xs"
  shows "js_sort cmp ys = js_sort cmp xs"
proof (rule sorted_wrt_mset_unique [where le = "\<lambda>a b. cmp a b \<le> 0"])
  show "sorted_wrt (\<lambda>a b. cmp a b \<le> 0) (js_sort cmp ys)"
    by (rule js_sort_sorted) (use total trans in blast)+
  show "sorted_wrt (\<lambda>a b. cmp a b \<le> 0) (js_sort cmp xs)"
    by (rule js_sort_sorted) (use total trans in blast)+
  show "mset (js_sort cmp ys) = mset (js_sort cmp xs)"
    by (simp add: js_sort_mset perm)
  show "cmp a a \<le> 0" for a using total [of a a] by simp
  have same: "set (js_sort cmp ys) = set xs"
    using js_sort_mset [of cmp ys] perm by (metis mset_eq_setD)
  show "a = b" if "a \<in> set (js_sort cmp ys)" "b \<in> set (js_sort cmp ys)"
    "cmp a b \<le> 0" "cmp b a \<le> 0" for a b
    using that noties [of a b] same by simp
qed

text \<open>
  C3, amended. The client's \<^verbatim>\<open>serializeStateForHash\<close> returns the same string for two
  states that differ only in the order of the enemies, when the enemies have pairwise
  distinct ids and \<^verbatim>\<open>localeCompare\<close> orders them: it is total and transitive, and no two
  ids of the state compare equal. (The sort is stable, so enemies sharing an id would keep
  the order they came in.)
\<close>

theorem serializeStateForHash_order:
  assumes total: "\<forall>a b. localeCompare a b \<le> 0 \<or> localeCompare b a \<le> 0"
    and trans: "\<forall>a b c. localeCompare a b \<le> 0 \<and> localeCompare b c \<le> 0
                  \<longrightarrow> localeCompare a c \<le> 0"
    and noties: "\<forall>a \<in> set (enemies s). \<forall>b \<in> set (enemies s).
                   localeCompare (enemy_id a) (enemy_id b) \<le> 0
                   \<and> localeCompare (enemy_id b) (enemy_id a) \<le> 0 \<longrightarrow> enemy_id a = enemy_id b"
    and ids: "distinct (map enemy_id (enemies s))"
    and perm: "mset es' = mset (enemies s)"
  shows "serializeStateForHash localeCompare (s\<lparr>enemies := es'\<rparr>)
       = serializeStateForHash localeCompare s"
proof -
  let ?key = "\<lambda>e. (enemy_id e, enemy_hp e)"
  let ?cmp = "\<lambda>a b :: string \<times> int. localeCompare (fst a) (fst b)"
  have keys: "mset (map ?key es') = mset (map ?key (enemies s))"
    using perm by (metis mset_map)
  have "js_sort ?cmp (map ?key es') = js_sort ?cmp (map ?key (enemies s))"
  proof (rule js_sort_permutation [OF _ _ _ keys])
    show "?cmp a b \<le> 0 \<or> ?cmp b a \<le> 0" for a b using total by blast
    show "?cmp a c \<le> 0" if "?cmp a b \<le> 0" "?cmp b c \<le> 0" for a b c
      using trans that by blast
    show "a = b" if a: "a \<in> set (map ?key (enemies s))"
      and b: "b \<in> set (map ?key (enemies s))"
      and le: "?cmp a b \<le> 0" "?cmp b a \<le> 0" for a b
    proof -
      from a obtain e where e: "e \<in> set (enemies s)" "a = ?key e" by auto
      from b obtain f where f: "f \<in> set (enemies s)" "b = ?key f" by auto
      from noties e f le have "enemy_id e = enemy_id f" by simp
      with ids e(1) f(1) have "e = f"
        by (metis distinct_map inj_onD)
      with e f show ?thesis by simp
    qed
  qed
  then show ?thesis by (simp add: serializeStateForHash_def)
qed


lemma codeCompare_le: "codeCompare a b \<le> 0 \<longleftrightarrow> a \<le> b"
  by (auto simp: codeCompare_def)

lemma serializeStateForHash_test:
  \<open>serializeStateForHash codeCompare
      (createTestState\<lparr>enemies :=
         [hd (enemies createTestState)\<lparr>enemy_id := ''enemy-1'', enemy_hp := 15\<rparr>,
          hd (enemies createTestState)]\<rparr>)
   = ''{"status":"EXECUTING","levelSeed":"0x1234","turnCounter":1,"levelId":1,"player":{"hp":100,"shield":0},"enemies":[{"id":"enemy-0","hp":20},{"id":"enemy-1","hp":15}]}''\<close>
  by code_simp

theorem serializeStateForHash_order_witness:
  \<open>serializeStateForHash codeCompare
      (createTestState\<lparr>enemies :=
         [hd (enemies createTestState),
          hd (enemies createTestState)\<lparr>enemy_id := ''enemy-1'', enemy_hp := 15\<rparr>]\<rparr>)
   = ''{"status":"EXECUTING","levelSeed":"0x1234","turnCounter":1,"levelId":1,"player":{"hp":100,"shield":0},"enemies":[{"id":"enemy-0","hp":20},{"id":"enemy-1","hp":15}]}''\<close>
proof -
  let ?e0 = "hd (enemies createTestState)"
  let ?e1 = "hd (enemies createTestState)\<lparr>enemy_id := ''enemy-1'', enemy_hp := 15\<rparr>"
  let ?s = "createTestState\<lparr>enemies := [?e1, ?e0]\<rparr>"
  have total: "\<forall>a b. codeCompare a b \<le> 0 \<or> codeCompare b a \<le> 0"
    by (auto simp: codeCompare_le)
  have trans: "\<forall>a b c. codeCompare a b \<le> 0 \<and> codeCompare b c \<le> 0 \<longrightarrow> codeCompare a c \<le> 0"
    by (auto simp: codeCompare_le)
  have noties: "\<forall>a \<in> set (enemies ?s). \<forall>b \<in> set (enemies ?s).
      codeCompare (enemy_id a) (enemy_id b) \<le> 0 \<and> codeCompare (enemy_id b) (enemy_id a) \<le> 0
      \<longrightarrow> enemy_id a = enemy_id b"
    by (auto simp: codeCompare_le)
  have ids: "distinct (map enemy_id (enemies ?s))"
    by (simp add: createTestState_def)
  have perm: "mset [?e0, ?e1] = mset (enemies ?s)"
    by simp
  from serializeStateForHash_order [OF total trans noties ids perm]
  have "serializeStateForHash codeCompare (createTestState\<lparr>enemies := [?e0, ?e1]\<rparr>)
      = serializeStateForHash codeCompare ?s"
    by simp
  with serializeStateForHash_test show ?thesis by simp
qed

text \<open>
  C3 as stated claims that the verifier's commitment, too, does not depend on the order
  of the enemies. \<^verbatim>\<open>computeStateHash\<close> packs them in the order of the array and does not
  sort: the contract's own level, with its first two enemies exchanged, has another
  digest.
\<close>

lemma computeStateHash_sol_default:
  "map_sum id (map uint) (computeStateHash_sol
      \<lparr>player_hp_sol = 100, player_maxHp_sol = 100, player_shield_sol = 0\<rparr>
      getDefaultEnemies 1 0)
   = Inr [151, 210, 231, 4, 224, 242, 20, 77, 156, 76, 165, 210, 239, 185, 59, 43,
          22, 40, 83, 250, 103, 194, 90, 237, 28, 244, 99, 247, 126, 130, 66, 56]"
  by code_simp

lemma computeStateHash_sol_swapped:
  "map_sum id (map uint) (computeStateHash_sol
      \<lparr>player_hp_sol = 100, player_maxHp_sol = 100, player_shield_sol = 0\<rparr>
      [getDefaultEnemies ! 1, getDefaultEnemies ! 0, getDefaultEnemies ! 2] 1 0)
   = Inr [129, 183, 224, 83, 183, 118, 163, 27, 26, 62, 53, 235, 197, 72, 29, 132,
          210, 246, 89, 37, 13, 177, 132, 222, 107, 39, 22, 227, 82, 8, 111, 0]"
  by code_simp

theorem computeStateHash_sol_order_counterexample:
  "mset [getDefaultEnemies ! 1, getDefaultEnemies ! 0, getDefaultEnemies ! 2]
     = mset getDefaultEnemies
   \<and> map_sum id (map uint) (computeStateHash_sol
        \<lparr>player_hp_sol = 100, player_maxHp_sol = 100, player_shield_sol = 0\<rparr>
        getDefaultEnemies 1 0)
     = Inr [151, 210, 231, 4, 224, 242, 20, 77, 156, 76, 165, 210, 239, 185, 59, 43,
            22, 40, 83, 250, 103, 194, 90, 237, 28, 244, 99, 247, 126, 130, 66, 56]
   \<and> map_sum id (map uint) (computeStateHash_sol
        \<lparr>player_hp_sol = 100, player_maxHp_sol = 100, player_shield_sol = 0\<rparr>
        [getDefaultEnemies ! 1, getDefaultEnemies ! 0, getDefaultEnemies ! 2] 1 0)
     = Inr [129, 183, 224, 83, 183, 118, 163, 27, 26, 62, 53, 235, 197, 72, 29, 132,
            210, 246, 89, 37, 13, 177, 132, 222, 107, 39, 22, 227, 82, 8, 111, 0]"
proof (intro conjI)
  show "mset [getDefaultEnemies ! 1, getDefaultEnemies ! 0, getDefaultEnemies ! 2]
     = mset getDefaultEnemies"
    by (simp add: getDefaultEnemies_def)
qed (rule computeStateHash_sol_default computeStateHash_sol_swapped)+


section \<open>The two hand derivations\<close>

lemma client_hand_seed0_turn1:
  "map_sum id (\<lambda>h. (map packet_view (packets h), hand_anomaly h, hand_jackpotHit h))
     (derivePacketsFromSeed
        ''0x0000000000000000000000000000000000000000000000000000000000000000'' 1)
   = Inr ([(184, DEFEND, 5), (236, CRIT, 15), (6, MISS, 0), (237, CRIT, 15),
           (229, CRIT, 15), (5, MISS, 0)], STABLE, False)"
  by code_simp

lemma verifier_hand_seed0_turn1:
  "map packet_view_sol (deriveHand_sol (replicate 32 0) 1)
   = [(177, DEFEND, 5), (134, ATTACK, 5), (71, ATTACK, 5), (116, ATTACK, 5),
      (10, MISS, 0), (40, ATTACK, 5)]"
  by code_simp

text \<open>
  C1. The client and the verifier are to derive the same hand from the same seed and
  turn. They do not. The client hashes the seed with the ASCII text \<^verbatim>\<open>Turn1\<close> and reads
  the kind of packet \<open>i\<close> from byte \<open>2i\<close> of the digest; the verifier hashes the seed with
  \<^verbatim>\<open>Turn\<close> and the byte 1, and reads packet \<open>i\<close> from byte \<open>i\<close>. For the all-zero seed at
  turn 1 both hands have six packets, with other bytes at every position and other kinds
  at five of them.
\<close>

theorem hand_derivations_differ:
  "map_sum id (\<lambda>h. (map packet_view (packets h), hand_anomaly h, hand_jackpotHit h))
     (derivePacketsFromSeed
        ''0x0000000000000000000000000000000000000000000000000000000000000000'' 1)
   = Inr ([(184, DEFEND, 5), (236, CRIT, 15), (6, MISS, 0), (237, CRIT, 15),
           (229, CRIT, 15), (5, MISS, 0)], STABLE, False)
   \<and> map packet_view_sol (deriveHand_sol (replicate 32 0) 1)
   = [(177, DEFEND, 5), (134, ATTACK, 5), (71, ATTACK, 5), (116, ATTACK, 5),
      (10, MISS, 0), (40, ATTACK, 5)]"
  by (intro conjI client_hand_seed0_turn1 verifier_hand_seed0_turn1)

end
